theory Spec2Isabelle
  imports Complex_Main "HOL-Library.Signed_Division"
begin

section \<open>Go values used by the renderers\<close>

subsection \<open>Integers, instants and durations\<close>

text \<open>
  A \<open>time.Duration\<close> is an \<open>int64\<close> count of nanoseconds. It is modelled as an
  \<open>int\<close> that stays inside the 64-bit range: addition wraps around
  (\<open>int64_add\<close>) and \<open>Time.Sub\<close> saturates, as the Go library does. An instant
  (\<open>time.Time\<close>) is the number of nanoseconds since the epoch; its range is far larger
  than that of a duration, so it is an unbounded \<open>int\<close>.
\<close>

type_synonym Duration = int
type_synonym Time = int

definition minDuration :: Duration where
  "minDuration = - (2 ^ 63)"

definition maxDuration :: Duration where
  "maxDuration = 2 ^ 63 - 1"

definition Second :: Duration where
  "Second = 1000000000"

definition Minute :: Duration where
  "Minute = 60 * Second"

definition Hour :: Duration where
  "Hour = 60 * Minute"

definition int64_wrap :: "int \<Rightarrow> int" where
  "int64_wrap x = (x + 2 ^ 63) mod 2 ^ 64 - 2 ^ 63"

definition int64_add :: "Duration \<Rightarrow> Duration \<Rightarrow> Duration" where
  "int64_add s d = int64_wrap (s + d)"

text \<open>\<open>t.Sub(u)\<close>: the difference, or the extreme duration when it does not fit.\<close>

definition Time_Sub :: "Time \<Rightarrow> Time \<Rightarrow> Duration" where
  "Time_Sub t u =
     (let d = t - u
      in if d < minDuration then minDuration
         else if maxDuration < d then maxDuration
         else d)"

subsection \<open>float64\<close>

text \<open>
  \<open>Duration.Hours\<close>, \<open>Minutes\<close> and \<open>Seconds\<close> compute in \<open>float64\<close>. A finite
  \<open>float64\<close> is the rational number it denotes; every operation returns the exact
  result rounded to the nearest number with a 53-bit significand, ties to the even
  significand (\<open>float64_round\<close>). The magnitudes that occur here are below \<open>2 ^ 63\<close>,
  so the result never overflows to an infinity, and NaN does not arise.
\<close>

type_synonym float64 = rat

text \<open>Rounding a rational to the nearest integer, ties to even.\<close>

definition rne :: "rat \<Rightarrow> int" where
  "rne y =
     (let f = \<lfloor>y\<rfloor>; r = y - of_int f
      in if r < 1 / 2 then f
         else if 1 / 2 < r then f + 1
         else if even f then f else f + 1)"

text \<open>\<open>log2n n\<close> is the position of the highest set bit of \<open>n\<close>, for \<open>n \<ge> 1\<close>.\<close>

function log2n :: "int \<Rightarrow> nat" where
  "log2n n = (if n < 2 then 0 else Suc (log2n (n div 2)))"
  by pat_completeness auto
termination
  by (relation "measure nat") auto

declare log2n.simps [simp del]

text \<open>The binary exponent \<open>e\<close> of a positive rational: \<open>2 ^ e \<le> a < 2 ^ (e + 1)\<close>.\<close>

definition binexp :: "rat \<Rightarrow> int" where
  "binexp a =
     (if 1 \<le> a then int (log2n \<lfloor>a\<rfloor>)
      else - int (let m = \<lceil>1 / a\<rceil> in if m \<le> 1 then 0 else Suc (log2n (m - 1))))"

definition scale2 :: "int \<Rightarrow> rat \<Rightarrow> rat" where
  "scale2 k y = (if 0 \<le> k then y * 2 ^ nat k else y / 2 ^ nat (- k))"

text \<open>
  The exponent is not taken below \<open>-1022\<close>: smaller numbers are subnormal and share
  the spacing of the smallest normal binade.
\<close>

definition float64_round :: "rat \<Rightarrow> float64" where
  "float64_round x =
     (if x = 0 then 0
      else let a = \<bar>x\<bar>; e = max (binexp a) (- 1022)
           in sgn x * scale2 (e - 52) (of_int (rne (scale2 (52 - e) a))))"

definition float64_of_int64 :: "int \<Rightarrow> float64" where
  "float64_of_int64 n = float64_round (of_int n)"

definition float64_add :: "float64 \<Rightarrow> float64 \<Rightarrow> float64" where
  "float64_add x y = float64_round (x + y)"

definition float64_div :: "float64 \<Rightarrow> float64 \<Rightarrow> float64" where
  "float64_div x y = float64_round (x / y)"

text \<open>The conversion \<open>int64(x)\<close> of a float truncates towards zero.\<close>

definition int64_of_float64 :: "float64 \<Rightarrow> int" where
  "int64_of_float64 x = (if 0 \<le> x then \<lfloor>x\<rfloor> else \<lceil>x\<rceil>)"

text \<open>
  The three conversions of package \<open>time\<close>. Go's \<open>/\<close> and \<open>%\<close> on integers truncate
  towards zero (\<open>sdiv\<close>, \<open>smod\<close>).
  \<^verbatim>\<open>
  func (d Duration) Hours() float64 {
      hour := d / Hour
      nsec := d % Hour
      return float64(hour) + float64(nsec)/(60*60*1e9)
  }
  \<close>
\<close>

definition Duration_Hours :: "Duration \<Rightarrow> float64" where
  "Duration_Hours d =
     (let hour = d sdiv Hour; nsec = d smod Hour
      in float64_add (float64_of_int64 hour)
           (float64_div (float64_of_int64 nsec) (float64_round 3600000000000)))"

definition Duration_Minutes :: "Duration \<Rightarrow> float64" where
  "Duration_Minutes d =
     (let min = d sdiv Minute; nsec = d smod Minute
      in float64_add (float64_of_int64 min)
           (float64_div (float64_of_int64 nsec) (float64_round 60000000000)))"

definition Duration_Seconds :: "Duration \<Rightarrow> float64" where
  "Duration_Seconds d =
     (let sec = d sdiv Second; nsec = d smod Second
      in float64_add (float64_of_int64 sec)
           (float64_div (float64_of_int64 nsec) (float64_round 1000000000)))"

subsection \<open>Formatting verbs of package fmt\<close>

definition digit_char :: "int \<Rightarrow> char" where
  "digit_char n = ''0123456789'' ! nat n"

function decimal :: "int \<Rightarrow> string" where
  "decimal n = (if n < 10 then [digit_char n] else decimal (n div 10) @ [digit_char (n mod 10)])"
  by pat_completeness auto
termination
  by (relation "measure nat") auto

declare decimal.simps [simp del]

definition zero_pad :: "nat \<Rightarrow> string \<Rightarrow> string" where
  "zero_pad width s = replicate (width - length s) (CHR ''0'') @ s"

text \<open>\<open>%d\<close>.\<close>

definition Sprintf_d :: "int \<Rightarrow> string" where
  "Sprintf_d n = (if n < 0 then ''-'' @ decimal (- n) else decimal n)"

text \<open>\<open>%02d\<close>: zero-padded to width 2, where the sign of a negative number takes one
  of the two places.\<close>

definition Sprintf_02d :: "int \<Rightarrow> string" where
  "Sprintf_02d n =
     (if n < 0 then ''-'' @ zero_pad 1 (decimal (- n)) else zero_pad 2 (decimal n))"

text \<open>\<open>%f\<close>: six decimals, the exact value rounded to nearest, ties to even.\<close>

definition Sprintf_f :: "float64 \<Rightarrow> string" where
  "Sprintf_f x =
     (let n = rne (\<bar>x\<bar> * 1000000)
      in (if x < 0 then ''-'' else '''')
           @ decimal (n div 1000000) @ ''.'' @ zero_pad 6 (decimal (n mod 1000000)))"

text \<open>\<open>fmt.Sprintf("%s (%s)", a, b)\<close> and \<open>strings.Join\<close>.\<close>

definition Sprintf_s_paren :: "string \<Rightarrow> string \<Rightarrow> string" where
  "Sprintf_s_paren a b = a @ '' ('' @ b @ '')''"

fun Join :: "string list \<Rightarrow> string \<Rightarrow> string" where
  "Join [] sep = ''''"
| "Join [x] sep = x"
| "Join (x # y # ys) sep = x @ sep @ Join (y # ys) sep"

definition newline :: string where
  "newline = [CHR 0x0A]"

section \<open>internal/output/timeEntry.go: durations\<close>

text \<open>
  \<^verbatim>\<open>
  func durationToString(d time.Duration) string {
      return fmt.Sprintf("%d:%02d:%02d",
          int64(d.Hours()), int64(d.Minutes())%60, int64(d.Seconds())%60)
  }
  \<close>
\<close>

definition durationToString :: "Duration \<Rightarrow> string" where
  "durationToString d =
     Sprintf_d (int64_of_float64 (Duration_Hours d)) @ '':''
       @ Sprintf_02d (int64_of_float64 (Duration_Minutes d) smod 60) @ '':''
       @ Sprintf_02d (int64_of_float64 (Duration_Seconds d) smod 60)"

text \<open>The shape \<open>H:MM:SS\<close>: one or more digits, a colon, two digits, a colon, two digits.\<close>

definition is_digit :: "char \<Rightarrow> bool" where
  "is_digit c = (c \<in> set ''0123456789'')"

definition HMMSS_shape :: "string \<Rightarrow> bool" where
  "HMMSS_shape s =
     (takeWhile is_digit s \<noteq> [] \<and>
      (case dropWhile is_digit s of
         [c1, m1, m2, c2, s1, s2] \<Rightarrow>
           c1 = CHR '':'' \<and> is_digit m1 \<and> is_digit m2 \<and>
           c2 = CHR '':'' \<and> is_digit s1 \<and> is_digit s2
       | _ \<Rightarrow> False))"

definition two_digits :: "int \<Rightarrow> string" where
  "two_digits n = [digit_char (n div 10), digit_char (n mod 10)]"

section \<open>The data the renderers read\<close>

subsection \<open>api/dto\<close>

text \<open>
  Modelled from the spec: package \<open>api/dto\<close> is not among the source files. The
  records below carry the fields that \<open>timeEntry.go\<close> reads, as section 3 of the
  spec lists them. A pointer to a project, task or user is an optional address into
  the memory below (\<open>None\<close> is \<open>nil\<close>); the end of the interval, a
  \<open>*time.Time\<close> that is only ever read, is an optional instant.
\<close>

type_synonym addr = nat

record Tag =
  ID :: string
  Name :: string

record Project =
  ID :: string
  Name :: string
  Color :: string

record Task =
  ID :: string
  Name :: string

record User =
  ID :: string
  Email :: string
  Name :: string

record TimeInterval =
  Start :: Time
  End :: "Time option"

record TimeEntry =
  ID :: string
  Description :: string
  Project :: "addr option"
  Task :: "addr option"
  User :: "addr option"
  Tags :: "Tag list"
  TimeInterval :: TimeInterval

text \<open>The zero values \<open>dto.Project{}\<close>, \<open>dto.Task{}\<close> and \<open>dto.User{}\<close>.\<close>

definition zero_Project :: Project where
  "zero_Project = \<lparr>Project.ID = '''', Project.Name = '''', Color = ''''\<rparr>"

definition zero_Task :: Task where
  "zero_Task = \<lparr>Task.ID = '''', Task.Name = ''''\<rparr>"

definition zero_User :: User where
  "zero_User = \<lparr>User.ID = '''', Email = '''', User.Name = ''''\<rparr>"

subsection \<open>Memory\<close>

text \<open>
  The objects that entries point to live in a memory shared with the caller: one heap
  per type, each a store of cells with the next unused address. Taking the address of
  a new local variable (\<open>&u\<close>) allocates a cell.
\<close>

record 'a heap =
  cells :: "addr \<Rightarrow> 'a"
  fresh :: addr

record memory =
  Projects :: "Project heap"
  Tasks :: "Task heap"
  Users :: "User heap"

definition deref :: "'a heap \<Rightarrow> addr \<Rightarrow> 'a" where
  "deref h a = cells h a"

definition alloc :: "'a heap \<Rightarrow> 'a \<Rightarrow> addr \<times> 'a heap" where
  "alloc h v = (fresh h, \<lparr>cells = (cells h)(fresh h := v), fresh = Suc (fresh h)\<rparr>)"

subsection \<open>Errors, the output sink, the clock\<close>

datatype error =
    WriteError
  | TemplateSyntaxError string
  | TemplateEvalError string
  | MarshalError string
  | ResourceError string
  | OptionError string
  | ConflictingFlags string string
  | DependentFlagMissing string string

text \<open>
  An \<open>io.Writer\<close>. The sink keeps what it has accepted and how many more bytes it
  will take (\<open>None\<close>: any number). A write that does not fit stores the bytes that
  do and reports an error; a sink with no room left is a broken pipe.
\<close>

record sink =
  written :: string
  room :: "nat option"

definition Write :: "sink \<Rightarrow> string \<Rightarrow> error option \<times> sink" where
  "Write w s =
     (case room w of
        None \<Rightarrow> (None, w\<lparr>written := written w @ s\<rparr>)
      | Some n \<Rightarrow>
          if length s \<le> n
          then (None, \<lparr>written = written w @ s, room = Some (n - length s)\<rparr>)
          else (Some WriteError, \<lparr>written = written w @ take n s, room = Some 0\<rparr>))"

text \<open>\<open>fmt.Fprintln(w, s)\<close>: one write of the text and a newline.\<close>

definition Fprintln :: "sink \<Rightarrow> string \<Rightarrow> error option \<times> sink" where
  "Fprintln w s = Write w (s @ newline)"

text \<open>
  The wall clock is the sequence of instants that successive calls of \<open>time.Now()\<close>
  return: a call takes the first and leaves the rest.
\<close>

type_synonym clock = "nat \<Rightarrow> Time"

definition time_Now :: "clock \<Rightarrow> Time \<times> clock" where
  "time_Now clk = (clk 0, \<lambda>n. clk (Suc n))"

section \<open>internal/output/timeEntry.go: the renderers\<close>

text \<open>
  A renderer takes the entries and the sink, and returns the error (\<open>None\<close> is nil)
  and the sink as the call leaves it. The slice of entries is a list: in a \<open>range\<close>
  loop a nil slice and an empty one behave alike. They differ only where the slice is
  marshalled, in the JSON renderer. What a renderer reads from its environment (the
  clock, the memory the entries point into, the terminal) is an argument.
\<close>

subsection \<open>Total duration\<close>

text \<open>
  \<^verbatim>\<open>
  func sumTimeEntriesDuration(timeEntries []dto.TimeEntry) time.Duration {
      s := time.Duration(0)
      for _, t := range timeEntries {
          end := time.Now()
          if t.TimeInterval.End != nil {
              end = *t.TimeInterval.End
          }
          d := end.Sub(t.TimeInterval.Start)
          s = s + d
      }
      return s
  }
  \<close>
  The clock is read at every iteration, before the test.
\<close>

fun sum_loop :: "Duration \<Rightarrow> clock \<Rightarrow> TimeEntry list \<Rightarrow> Duration \<times> clock" where
  "sum_loop s clk [] = (s, clk)"
| "sum_loop s clk (t # ts) =
     (let (now, clk') = time_Now clk;
          end = (case End (TimeInterval t) of None \<Rightarrow> now | Some e \<Rightarrow> e);
          d = Time_Sub end (Start (TimeInterval t))
      in sum_loop (int64_add s d) clk' ts)"

definition sumTimeEntriesDuration :: "clock \<Rightarrow> TimeEntry list \<Rightarrow> Duration \<times> clock" where
  "sumTimeEntriesDuration clk timeEntries = sum_loop 0 clk timeEntries"

definition timeEntriesTotalDurationOnly ::
  "(Duration \<Rightarrow> string) \<Rightarrow> clock \<Rightarrow> TimeEntry list \<Rightarrow> sink \<Rightarrow> error option \<times> sink" where
  "timeEntriesTotalDurationOnly f clk timeEntries w =
     Fprintln w (f (fst (sumTimeEntriesDuration clk timeEntries)))"

definition TimeEntriesTotalDurationOnlyAsFloat ::
  "clock \<Rightarrow> TimeEntry list \<Rightarrow> sink \<Rightarrow> error option \<times> sink" where
  "TimeEntriesTotalDurationOnlyAsFloat clk timeEntries w =
     timeEntriesTotalDurationOnly (\<lambda>d. Sprintf_f (Duration_Hours d)) clk timeEntries w"

definition TimeEntriesTotalDurationOnlyFormatted ::
  "clock \<Rightarrow> TimeEntry list \<Rightarrow> sink \<Rightarrow> error option \<times> sink" where
  "TimeEntriesTotalDurationOnlyFormatted clk timeEntries w =
     timeEntriesTotalDurationOnly durationToString clk timeEntries w"

subsection \<open>Quiet\<close>

text \<open>
  \<^verbatim>\<open>
  func TimeEntriesPrintQuietly(timeEntries []dto.TimeEntry, w io.Writer) error {
      for _, u := range timeEntries {
          fmt.Fprintln(w, u.ID)
      }
      return nil
  }
  \<close>
  The result of \<open>Fprintln\<close> is dropped.
\<close>

fun quiet_loop :: "sink \<Rightarrow> TimeEntry list \<Rightarrow> sink" where
  "quiet_loop w [] = w"
| "quiet_loop w (u # us) = quiet_loop (snd (Fprintln w (TimeEntry.ID u))) us"

definition TimeEntriesPrintQuietly :: "TimeEntry list \<Rightarrow> sink \<Rightarrow> error option \<times> sink" where
  "TimeEntriesPrintQuietly timeEntries w = (None, quiet_loop w timeEntries)"

subsection \<open>JSON\<close>

text \<open>
  \<open>json.NewEncoder(w).Encode(t)\<close> marshals the value and, when that succeeds, writes
  the text and a newline in one write. A slice marshals as an array of its elements,
  and a nil slice as \<open>null\<close>, so the argument is an optional list here (\<open>None\<close> is
  the nil slice). How one entry marshals depends on the declarations of package dto;
  it is the parameter \<open>enc\<close>.
\<close>

fun marshal_all ::
  "(memory \<Rightarrow> TimeEntry \<Rightarrow> error + string) \<Rightarrow> memory \<Rightarrow> TimeEntry list \<Rightarrow> error + string list" where
  "marshal_all enc mem [] = Inr []"
| "marshal_all enc mem (x # xs) =
     (case enc mem x of
        Inl e \<Rightarrow> Inl e
      | Inr s \<Rightarrow> (case marshal_all enc mem xs of Inl e \<Rightarrow> Inl e | Inr ss \<Rightarrow> Inr (s # ss)))"

definition json_Marshal ::
  "(memory \<Rightarrow> TimeEntry \<Rightarrow> error + string) \<Rightarrow> memory \<Rightarrow> TimeEntry list option \<Rightarrow> error + string" where
  "json_Marshal enc mem t =
     (case t of
        None \<Rightarrow> Inr ''null''
      | Some xs \<Rightarrow>
          (case marshal_all enc mem xs of
             Inl e \<Rightarrow> Inl e
           | Inr ss \<Rightarrow> Inr (''['' @ Join ss '','' @ '']'')))"

definition TimeEntriesJSONPrint ::
  "(memory \<Rightarrow> TimeEntry \<Rightarrow> error + string) \<Rightarrow> memory \<Rightarrow> TimeEntry list option \<Rightarrow> sink
     \<Rightarrow> error option \<times> sink" where
  "TimeEntriesJSONPrint enc mem t w =
     (case json_Marshal enc mem t of
        Inl e \<Rightarrow> (Some e, w)
      | Inr s \<Rightarrow> Write w (s @ newline))"

subsection \<open>Table\<close>

text \<open>
  The table is laid out by the library \<open>tablewriter\<close>, which is not part of this
  repository: the model records what the renderer hands to it (header, settings, and
  the lines added with \<open>Rich\<close> and \<open>Append\<close>) and takes the layout as the parameter
  \<open>tw_render\<close>. \<open>Render\<close> prints to the sink and has no result, so a failed write
  is not seen by the renderer.
\<close>

datatype tw_line = Rich "string list" "int list list" | Append "string list"

record table =
  header :: "string list"
  rowLine :: bool
  colWidth :: "int option"
  lines :: "tw_line list"

text \<open>
  What the table renderer reads from its environment: the local time zone and the layout
  rules of \<open>Time.Format\<close> (\<open>format_local layout t\<close> is
  \<open>t.In(time.Local).Format(layout)\<close>), whether standard output is a character device
  (\<open>None\<close>: \<open>os.Stdout.Stat()\<close> failed), the width of the terminal when it has
  one, \<open>ui.HEX\<close> (\<open>None\<close>: not a colour), and the layout of a table.
\<close>

record world =
  format_local :: "string \<Rightarrow> Time \<Rightarrow> string"
  stdout_char_device :: "bool option"
  term_width :: "int option"
  ui_HEX :: "string \<Rightarrow> int list option"
  tw_render :: "table \<Rightarrow> string"

datatype 'a outcome = Panics | Returns 'a

definition TIME_FORMAT_FULL :: string where
  "TIME_FORMAT_FULL = ''2006-01-02 15:04:05''"

definition TIME_FORMAT_SIMPLE :: string where
  "TIME_FORMAT_SIMPLE = ''15:04:05''"

text \<open>
  \<^verbatim>\<open>
  func colorToTermColor(hex string) []int {
      if len(hex) == 0 { return []int{} }
      fi, _ := os.Stdout.Stat()
      if fi.Mode()&os.ModeCharDevice == 0 { return []int{} }
      if c, err := ui.HEX(hex[1:]); err == nil {
          return append([]int{38, 2}, c.Values()...)
      }
      return []int{}
  }
  \<close>
  When \<open>Stat\<close> fails, \<open>fi\<close> is nil and \<open>fi.Mode()\<close> panics.
\<close>

definition colorToTermColor :: "world \<Rightarrow> string \<Rightarrow> int list outcome" where
  "colorToTermColor wd hex =
     (if length hex = 0 then Returns []
      else case stdout_char_device wd of
             None \<Rightarrow> Panics
           | Some chardev \<Rightarrow>
               if \<not> chardev then Returns []
               else (case ui_HEX wd (drop 1 hex) of
                       Some vals \<Rightarrow> Returns ([38, 2] @ vals)
                     | None \<Rightarrow> Returns []))"

record TimeEntryOutputOptions =
  ShowTasks :: bool
  ShowTotalDuration :: bool
  TimeFormat :: string

type_synonym TimeEntryOutputOpt =
  "TimeEntryOutputOptions \<Rightarrow> error option \<times> TimeEntryOutputOptions"

definition WithTimeFormat :: "string \<Rightarrow> TimeEntryOutputOpt" where
  "WithTimeFormat format = (\<lambda>teo. (None, teo\<lparr>TimeFormat := format\<rparr>))"

definition WithShowTasks :: TimeEntryOutputOpt where
  "WithShowTasks = (\<lambda>teoo. (None, teoo\<lparr>ShowTasks := True\<rparr>))"

definition WithTotalDuration :: TimeEntryOutputOpt where
  "WithTotalDuration = (\<lambda>teoo. (None, teoo\<lparr>ShowTotalDuration := True\<rparr>))"

fun apply_opts :: "TimeEntryOutputOpt list \<Rightarrow> TimeEntryOutputOptions \<Rightarrow> error + TimeEntryOutputOptions" where
  "apply_opts [] options = Inr options"
| "apply_opts (opt # opts) options =
     (case opt options of
        (Some err, _) \<Rightarrow> Inl err
      | (None, options') \<Rightarrow> apply_opts opts options')"

text \<open>
  \<^verbatim>\<open>
  func tagsToStringSlice(tags []dto.Tag) []string {
      s := make([]string, len(tags))
      for i, t := range tags {
          s[i] = fmt.Sprintf("%s (%s)", t.Name, t.ID)
      }
      return s
  }
  \<close>
\<close>

definition tagsToStringSlice :: "Tag list \<Rightarrow> string list" where
  "tagsToStringSlice tags = map (\<lambda>t. Sprintf_s_paren (Tag.Name t) (Tag.ID t)) tags"

text \<open>
  The header. \<open>append(header[:5], header[5:]...)\<close> writes the last two elements back
  where they were, so with \<open>ShowTasks\<close> the assignment \<open>header[5] = "Task"\<close>
  replaces \<open>"Description"\<close>; the same holds for each line.
\<close>

definition table_header :: "TimeEntryOutputOptions \<Rightarrow> string list" where
  "table_header options =
     (let header = [''ID'', ''Start'', ''End'', ''Dur'', ''Project'', ''Description'', ''Tags'']
      in if ShowTasks options then header[5 := ''Task''] else header)"

text \<open>
  The loop over the entries (lines 184 to 216): one \<open>Rich\<close> line each. The clock is
  read at every iteration; \<open>colors\<close> is one slice reused by all iterations.
\<close>

fun table_rows ::
  "world \<Rightarrow> TimeEntryOutputOptions \<Rightarrow> memory \<Rightarrow> clock \<Rightarrow> int list list \<Rightarrow> TimeEntry list
     \<Rightarrow> (tw_line list \<times> clock) outcome" where
  "table_rows wd options mem clk colors [] = Returns ([], clk)"
| "table_rows wd options mem clk colors (t # ts) =
     (let (now, clk') = time_Now clk;
          end = (case End (TimeInterval t) of None \<Rightarrow> now | Some e \<Rightarrow> e);
          colored =
            (case Project t of
               None \<Rightarrow> Returns ('''', colors[4 := []])
             | Some a \<Rightarrow>
                 (case colorToTermColor wd (Color (deref (Projects mem) a)) of
                    Panics \<Rightarrow> Panics
                  | Returns c \<Rightarrow> Returns (Project.Name (deref (Projects mem) a), colors[4 := c])))
      in case colored of
           Panics \<Rightarrow> Panics
         | Returns (projectName, colors') \<Rightarrow>
             (let line =
                    [TimeEntry.ID t,
                     format_local wd (TimeFormat options) (Start (TimeInterval t)),
                     format_local wd (TimeFormat options) end,
                     durationToString (Time_Sub end (Start (TimeInterval t))),
                     projectName,
                     Description t,
                     Join (tagsToStringSlice (Tags t)) '', ''];
                  line' =
                    (if ShowTasks options
                     then line[5 := (case Task t of
                                       None \<Rightarrow> ''''
                                     | Some a \<Rightarrow>
                                         Sprintf_s_paren (Task.Name (deref (Tasks mem) a))
                                           (Task.ID (deref (Tasks mem) a)))]
                     else line)
              in case table_rows wd options mem clk' colors' ts of
                   Panics \<Rightarrow> Panics
                 | Returns (ls, clk'') \<Rightarrow> Returns (Rich line' colors' # ls, clk'')))"

text \<open>The footer (lines 218 to 223): the clock is read again, once per entry.\<close>

definition table_total :: "TimeEntryOutputOptions \<Rightarrow> clock \<Rightarrow> TimeEntry list \<Rightarrow> tw_line list" where
  "table_total options clk timeEntries =
     (if ShowTotalDuration options
      then [Append ((replicate (length (table_header options)) '''')
                      [0 := ''TOTAL'',
                       3 := durationToString (fst (sumTimeEntriesDuration clk timeEntries))])]
      else [])"

definition table_of ::
  "world \<Rightarrow> TimeEntryOutputOptions \<Rightarrow> memory \<Rightarrow> clock \<Rightarrow> TimeEntry list \<Rightarrow> table outcome" where
  "table_of wd options mem clk timeEntries =
     (case table_rows wd options mem clk
             (replicate (length (table_header options)) []) timeEntries of
        Panics \<Rightarrow> Panics
      | Returns (ls, clk') \<Rightarrow>
          Returns \<lparr>header = table_header options,
                   rowLine = True,
                   colWidth = (case term_width wd of None \<Rightarrow> None | Some width \<Rightarrow> Some (width sdiv 3)),
                   lines = ls @ table_total options clk' timeEntries\<rparr>)"

text \<open>
  \<open>TimeEntriesPrint(opts...)\<close> applies the options and returns the renderer; an option
  that fails gives a renderer that returns its error.
\<close>

definition TimeEntriesPrint ::
  "world \<Rightarrow> TimeEntryOutputOpt list \<Rightarrow> memory \<Rightarrow> clock \<Rightarrow> TimeEntry list \<Rightarrow> sink
     \<Rightarrow> (error option \<times> sink) outcome" where
  "TimeEntriesPrint wd opts mem clk timeEntries w =
     (case apply_opts opts
             \<lparr>ShowTasks = False, ShowTotalDuration = False, TimeFormat = TIME_FORMAT_SIMPLE\<rparr> of
        Inl err \<Rightarrow> Returns (Some err, w)
      | Inr options \<Rightarrow>
          (case table_of wd options mem clk timeEntries of
             Panics \<Rightarrow> Panics
           | Returns tw \<Rightarrow> Returns (None, snd (Write w (tw_render wd tw)))))"

subsection \<open>CSV\<close>

text \<open>
  The writer of \<open>encoding/csv\<close>. A field is quoted when it is \<open>\.\<close>, contains a
  comma, a quote or a line break, or starts with a space character; inside quotes a
  quote is doubled. A record is its fields separated by commas and ended by a newline.
\<close>

definition starts_with :: "string \<Rightarrow> string \<Rightarrow> bool" where
  "starts_with p s = (take (length p) s = p)"

definition space_runes :: "string list" where
  "space_runes =
     [[CHR 0x09], [CHR 0x0A], [CHR 0x0B], [CHR 0x0C], [CHR 0x0D], [CHR 0x20],
      [CHR 0xC2, CHR 0x85], [CHR 0xC2, CHR 0xA0], [CHR 0xE1, CHR 0x9A, CHR 0x80],
      [CHR 0xE2, CHR 0x80, CHR 0x80], [CHR 0xE2, CHR 0x80, CHR 0x81],
      [CHR 0xE2, CHR 0x80, CHR 0x82], [CHR 0xE2, CHR 0x80, CHR 0x83],
      [CHR 0xE2, CHR 0x80, CHR 0x84], [CHR 0xE2, CHR 0x80, CHR 0x85],
      [CHR 0xE2, CHR 0x80, CHR 0x86], [CHR 0xE2, CHR 0x80, CHR 0x87],
      [CHR 0xE2, CHR 0x80, CHR 0x88], [CHR 0xE2, CHR 0x80, CHR 0x89],
      [CHR 0xE2, CHR 0x80, CHR 0x8A], [CHR 0xE2, CHR 0x80, CHR 0xA8],
      [CHR 0xE2, CHR 0x80, CHR 0xA9], [CHR 0xE2, CHR 0x80, CHR 0xAF],
      [CHR 0xE2, CHR 0x81, CHR 0x9F], [CHR 0xE3, CHR 0x80, CHR 0x80]]"

definition fieldNeedsQuotes :: "string \<Rightarrow> bool" where
  "fieldNeedsQuotes field =
     (if field = '''' then False
      else if field = [CHR 0x5C, CHR ''.''] then True
      else if list_ex (\<lambda>c. c \<in> set [CHR 0x0A, CHR 0x0D, CHR 0x22, CHR '','']) field then True
      else list_ex (\<lambda>p. starts_with p field) space_runes)"

definition csv_field :: "string \<Rightarrow> string" where
  "csv_field field =
     (if fieldNeedsQuotes field
      then [CHR 0x22] @ concat (map (\<lambda>c. if c = CHR 0x22 then [c, c] else [c]) field) @ [CHR 0x22]
      else field)"

definition csv_line :: "string list \<Rightarrow> string" where
  "csv_line record = Join (map csv_field record) '','' @ newline"

text \<open>
  The writer buffers (\<open>bufio\<close>, 4096 bytes): bytes reach the sink when the buffer
  is full and more arrive, and at \<open>Flush\<close>. Once a write to the sink has failed, the
  writer keeps the error and every later call returns it.
\<close>

record csvWriter =
  pending :: string
  under :: sink
  werr :: "error option"

definition csv_NewWriter :: "sink \<Rightarrow> csvWriter" where
  "csv_NewWriter out = \<lparr>pending = '''', under = out, werr = None\<rparr>"

function bufio_drain :: "string \<Rightarrow> sink \<Rightarrow> error option \<times> string \<times> sink" where
  "bufio_drain p w =
     (if length p \<le> 4096 then (None, p, w)
      else (case Write w (take 4096 p) of
              (Some e, w') \<Rightarrow> (Some e, p, w')
            | (None, w') \<Rightarrow> bufio_drain (drop 4096 p) w'))"
  by pat_completeness auto
termination
  by (relation "measure (\<lambda>(p, w). length p)") auto

declare bufio_drain.simps [simp del]

definition csv_Write :: "csvWriter \<Rightarrow> string list \<Rightarrow> error option \<times> csvWriter" where
  "csv_Write cw record =
     (case werr cw of
        Some e \<Rightarrow> (Some e, cw)
      | None \<Rightarrow>
          (case bufio_drain (pending cw @ csv_line record) (under cw) of
             (e, p, w) \<Rightarrow> (e, \<lparr>pending = p, under = w, werr = e\<rparr>)))"

definition csv_Flush :: "csvWriter \<Rightarrow> csvWriter" where
  "csv_Flush cw =
     (case werr cw of
        Some e \<Rightarrow> cw
      | None \<Rightarrow>
          (if pending cw = '''' then cw
           else (case Write (under cw) (pending cw) of
                   (Some e, w) \<Rightarrow> cw\<lparr>under := w, werr := Some e\<rparr>
                 | (None, w) \<Rightarrow> \<lparr>pending = '''', under = w, werr = None\<rparr>)))"

definition csv_header :: "string list" where
  "csv_header =
     [''id'', ''description'', ''project.id'', ''project.name'', ''task.id'', ''task.name'',
      ''start'', ''end'', ''duration'', ''user.id'', ''user.email'', ''user.name'', ''tags...'']"

text \<open>The local function \<open>format\<close> of \<open>TimeEntriesCSVPrint\<close>.\<close>

definition csv_format :: "world \<Rightarrow> Time option \<Rightarrow> string" where
  "csv_format wd t =
     (case t of None \<Rightarrow> '''' | Some t' \<Rightarrow> format_local wd ''2006-01-02 15:04:05'' t')"

text \<open>
  One iteration of the loop (lines 272 to 308), up to the record that is written. The
  loop variable \<open>te\<close> is a copy of the element of the slice; the assignments
  \<open>te.User = &u\<close> and \<open>te.Task = &t\<close> change the copy and allocate the new
  variable. The result is the copy as the iteration leaves it, the memory, and the
  record.
\<close>

definition csv_step ::
  "world \<Rightarrow> Time \<Rightarrow> memory \<Rightarrow> TimeEntry \<Rightarrow> TimeEntry \<times> memory \<times> string list" where
  "csv_step wd now mem te0 =
     (let p = (case Project te0 of None \<Rightarrow> zero_Project | Some a \<Rightarrow> deref (Projects mem) a);
          end = (case End (TimeInterval te0) of None \<Rightarrow> now | Some e \<Rightarrow> e);
          (u, te1, mem1) =
            (case User te0 of
               None \<Rightarrow>
                 (let (a, h) = alloc (Users mem) zero_User
                  in (a, te0\<lparr>User := Some a\<rparr>, mem\<lparr>Users := h\<rparr>))
             | Some a \<Rightarrow> (a, te0, mem));
          (t, te2, mem2) =
            (case Task te1 of
               None \<Rightarrow>
                 (let (a, h) = alloc (Tasks mem1) zero_Task
                  in (a, te1\<lparr>Task := Some a\<rparr>, mem1\<lparr>Tasks := h\<rparr>))
             | Some a \<Rightarrow> (a, te1, mem1));
          arr =
            [TimeEntry.ID te2,
             Description te2,
             Project.ID p,
             Project.Name p,
             Task.ID (deref (Tasks mem2) t),
             Task.Name (deref (Tasks mem2) t),
             csv_format wd (Some (Start (TimeInterval te2))),
             csv_format wd (End (TimeInterval te2)),
             durationToString (Time_Sub end (Start (TimeInterval te2))),
             User.ID (deref (Users mem2) u),
             Email (deref (Users mem2) u),
             User.Name (deref (Users mem2) u)]
      in (te2, mem2, arr @ tagsToStringSlice (Tags te2)))"

fun csv_loop ::
  "world \<Rightarrow> clock \<Rightarrow> memory \<Rightarrow> csvWriter \<Rightarrow> TimeEntry list \<Rightarrow> error option \<times> csvWriter \<times> memory" where
  "csv_loop wd clk mem cw [] = (None, cw, mem)"
| "csv_loop wd clk mem cw (te # rest) =
     (let (now, clk') = time_Now clk;
          (te', mem', record) = csv_step wd now mem te
      in case csv_Write cw record of
           (Some err, cw') \<Rightarrow> (Some err, cw', mem')
         | (None, cw') \<Rightarrow> csv_loop wd clk' mem' cw' rest)"

text \<open>
  The renderer. Its result is the error, the sink, the memory after the call, and the
  caller's slice after the call: no statement assigns to an element of
  \<open>timeEntries\<close>.
\<close>

definition TimeEntriesCSVPrint ::
  "world \<Rightarrow> clock \<Rightarrow> memory \<Rightarrow> TimeEntry list \<Rightarrow> sink
     \<Rightarrow> error option \<times> sink \<times> memory \<times> TimeEntry list" where
  "TimeEntriesCSVPrint wd clk mem timeEntries out =
     (case csv_Write (csv_NewWriter out) csv_header of
        (Some err, w) \<Rightarrow> (Some err, under w, mem, timeEntries)
      | (None, w) \<Rightarrow>
          (case csv_loop wd clk mem w timeEntries of
             (Some err, w', mem') \<Rightarrow> (Some err, under w', mem', timeEntries)
           | (None, w', mem') \<Rightarrow>
               (let w'' = csv_Flush w' in (werr w'', under w'', mem', timeEntries))))"

subsection \<open>User template and Markdown\<close>

text \<open>
  The template engine (\<open>text/template\<close>) is a parameter: \<open>parse\<close> is
  \<open>template.New("tmpl").Funcs(funcMap).Parse\<close>, and \<open>exec t mem v\<close> gives the text
  that evaluating \<open>t\<close> on the view \<open>v\<close> emits and the error that stops it, if any.
  \<open>Execute\<close> writes the text as it is emitted, so a failed write stops it first.
\<close>

record view =
  TimeEntry :: TimeEntry
  First :: bool
  Last :: bool

definition Execute ::
  "('t \<Rightarrow> memory \<Rightarrow> view \<Rightarrow> string \<times> error option) \<Rightarrow> 't \<Rightarrow> memory \<Rightarrow> view \<Rightarrow> sink
     \<Rightarrow> error option \<times> sink" where
  "Execute exec t mem v w =
     (let (txt, e) = exec t mem v
      in case Write w txt of
           (Some write_err, w') \<Rightarrow> (Some write_err, w')
         | (None, w') \<Rightarrow> (e, w'))"

text \<open>
  \<^verbatim>\<open>
  for i, te := range timeEntries {
      if err := t.Execute(w, struct {
          dto.TimeEntry
          First bool
          Last  bool
      }{
          TimeEntry: te,
          First:     i == 0,
          Last:      i == (len(timeEntries) - 1),
      }); err != nil {
          return err
      }
      fmt.Fprintln(w)
  }
  return nil
  \<close>
\<close>

fun template_loop ::
  "('t \<Rightarrow> memory \<Rightarrow> view \<Rightarrow> string \<times> error option) \<Rightarrow> 't \<Rightarrow> memory \<Rightarrow> int \<Rightarrow> int
     \<Rightarrow> TimeEntry list \<Rightarrow> sink \<Rightarrow> error option \<times> sink" where
  "template_loop exec t mem len i [] w = (None, w)"
| "template_loop exec t mem len i (te # rest) w =
     (case Execute exec t mem \<lparr>TimeEntry = te, First = (i = 0), Last = (i = len - 1)\<rparr> w of
        (Some err, w') \<Rightarrow> (Some err, w')
      | (None, w') \<Rightarrow> template_loop exec t mem len (i + 1) rest (snd (Fprintln w' '''')))"

definition TimeEntriesPrintWithTemplate ::
  "(string \<Rightarrow> error + 't) \<Rightarrow> ('t \<Rightarrow> memory \<Rightarrow> view \<Rightarrow> string \<times> error option) \<Rightarrow> string
     \<Rightarrow> memory \<Rightarrow> TimeEntry list \<Rightarrow> sink \<Rightarrow> error option \<times> sink" where
  "TimeEntriesPrintWithTemplate parse exec format mem timeEntries w =
     (case parse format of
        Inl err \<Rightarrow> (Some err, w)
      | Inr t \<Rightarrow> template_loop exec t mem (int (length timeEntries)) 0 timeEntries w)"

text \<open>\<open>resource\<close> is the result of reading the embedded file \<open>timeEntry.gotmpl.md\<close>.\<close>

definition TimeEntriesMarkdownPrint ::
  "(error + string) \<Rightarrow> (string \<Rightarrow> error + 't) \<Rightarrow> ('t \<Rightarrow> memory \<Rightarrow> view \<Rightarrow> string \<times> error option)
     \<Rightarrow> memory \<Rightarrow> TimeEntry list \<Rightarrow> sink \<Rightarrow> error option \<times> sink" where
  "TimeEntriesMarkdownPrint resource parse exec mem tes w =
     (case resource of
        Inl err \<Rightarrow> (Some err, w)
      | Inr b \<Rightarrow> TimeEntriesPrintWithTemplate parse exec b mem tes w)"

section \<open>pkg/cmd/time-entry/report/util: the check of the report flags\<close>

text \<open>
  Modelled from the spec: the type \<open>ReportFlags\<close> and its method \<open>Check\<close> are not
  among the source files; only their tests (\<open>TestReportBillableFlagsChecks\<close> and
  \<open>TestReportProjectFlagsChecks\<close>) are. The definition follows section 4.1 of the
  spec, rule 1 before rule 2; the second message is the text the test expects, the
  first is worded to match the pattern the test expects. The result is the error and
  the flags as the call leaves them.
\<close>

record ReportFlags =
  Billable :: bool
  NotBillable :: bool
  Client :: string
  Project :: string

definition Check :: "ReportFlags \<Rightarrow> error option \<times> ReportFlags" where
  "Check rf =
     (if Billable rf \<and> NotBillable rf
      then (Some (ConflictingFlags ''billable'' ''not-billable''), rf)
      else if Client rf \<noteq> '''' \<and> ReportFlags.Project rf = ''''
      then (Some (DependentFlagMissing ''client'' ''project''), rf)
      else (None, rf))"

text \<open>\<open>err.Error()\<close>.\<close>

definition apostrophe :: string where
  "apostrophe = [CHR 0x27]"

fun Error :: "error \<Rightarrow> string" where
  "Error (ConflictingFlags a b) =
     ''flags can'' @ apostrophe @ ''t be used together: '' @ a @ '' and '' @ b"
| "Error (DependentFlagMissing a b) =
     ''flag '' @ apostrophe @ a @ apostrophe @ '' can'' @ apostrophe
       @ ''t be used without flag '' @ apostrophe @ b @ apostrophe"
| "Error WriteError = ''write error''"
| "Error (TemplateSyntaxError m) = m"
| "Error (TemplateEvalError m) = m"
| "Error (MarshalError m) = m"
| "Error (ResourceError m) = m"
| "Error (OptionError m) = m"

text \<open>
  \<open>find_after t s\<close> is what follows the first occurrence of \<open>t\<close> in \<open>s\<close>;
  \<open>in_order [a, b, c] s\<close> says that \<open>s\<close> matches the pattern \<open>a.*b.*c\<close> somewhere.
\<close>

fun find_after :: "string \<Rightarrow> string \<Rightarrow> string option" where
  "find_after t [] = (if t = [] then Some [] else None)"
| "find_after t (c # cs) =
     (if starts_with t (c # cs) then Some (drop (length t) (c # cs)) else find_after t cs)"

fun in_order :: "string list \<Rightarrow> string \<Rightarrow> bool" where
  "in_order [] s = True"
| "in_order (t # ts) s = (case find_after t s of None \<Rightarrow> False | Some rest \<Rightarrow> in_order ts rest)"

definition contains :: "string \<Rightarrow> string \<Rightarrow> bool" where
  "contains s t = in_order [t] s"

section \<open>Notions used in the statements\<close>

text \<open>
  \<open>unit_float U d\<close> is the common form of \<open>Hours\<close>, \<open>Minutes\<close> and \<open>Seconds\<close>:
  the duration counted in units of \<open>U\<close> nanoseconds.
\<close>

definition unit_float :: "int \<Rightarrow> Duration \<Rightarrow> float64" where
  "unit_float U d =
     float64_add (float64_of_int64 (d sdiv U))
       (float64_div (float64_of_int64 (d smod U)) (float64_round (of_int U)))"

text \<open>
  The elapsed duration of an entry measured against the instant \<open>now\<close>, as every loop
  computes it; \<open>elapsed_from clk ts\<close> measures the i-th entry against the i-th reading
  of the clock.
\<close>

definition elapsed :: "Time \<Rightarrow> TimeEntry \<Rightarrow> Duration" where
  "elapsed now t =
     Time_Sub (case End (TimeInterval t) of None \<Rightarrow> now | Some e \<Rightarrow> e) (Start (TimeInterval t))"

fun elapsed_from :: "clock \<Rightarrow> TimeEntry list \<Rightarrow> Duration list" where
  "elapsed_from clk [] = []"
| "elapsed_from clk (t # ts) = elapsed (clk 0) t # elapsed_from (\<lambda>n. clk (Suc n)) ts"

text \<open>
  The same differences as integers, \<open>(end ?? now) - start\<close> without the limits of a
  64-bit duration.
\<close>

fun differences :: "clock \<Rightarrow> TimeEntry list \<Rightarrow> int list" where
  "differences clk [] = []"
| "differences clk (t # ts) =
     ((case End (TimeInterval t) of None \<Rightarrow> clk 0 | Some e \<Rightarrow> e) - Start (TimeInterval t))
       # differences (\<lambda>n. clk (Suc n)) ts"

text \<open>
  The records that the loop of \<open>TimeEntriesCSVPrint\<close> hands to the writer, in order: the
  i-th is made with the i-th reading of the clock and the memory as the iterations
  before it left it. \<open>csv_memory\<close> is the memory after the last iteration.
\<close>

fun csv_records :: "world \<Rightarrow> clock \<Rightarrow> memory \<Rightarrow> TimeEntry list \<Rightarrow> string list list" where
  "csv_records wd clk mem [] = []"
| "csv_records wd clk mem (te # rest) =
     (case csv_step wd (clk 0) mem te of
        (te', mem', record) \<Rightarrow> record # csv_records wd (\<lambda>n. clk (Suc n)) mem' rest)"

fun csv_memory :: "world \<Rightarrow> clock \<Rightarrow> memory \<Rightarrow> TimeEntry list \<Rightarrow> memory" where
  "csv_memory wd clk mem [] = mem"
| "csv_memory wd clk mem (te # rest) =
     (case csv_step wd (clk 0) mem te of
        (te', mem', record) \<Rightarrow> csv_memory wd (\<lambda>n. clk (Suc n)) mem' rest)"

text \<open>The view that the template is evaluated on for the entry at index \<open>i\<close>.\<close>

definition view_at :: "TimeEntry list \<Rightarrow> nat \<Rightarrow> view" where
  "view_at timeEntries i =
     \<lparr>TimeEntry = timeEntries ! i, First = (i = 0), Last = (int i = int (length timeEntries) - 1)\<rparr>"

text \<open>The cell of the column \<open>Dur\<close> in a line of the table.\<close>

fun dur_column :: "tw_line \<Rightarrow> string" where
  "dur_column (Rich line colors) = line ! 3"
| "dur_column (Append line) = line ! 3"

text \<open>
  \<open>extends mem mem'\<close>: every object that exists in \<open>mem\<close> is the same in \<open>mem'\<close>; the
  only difference is newly allocated tasks and users.
\<close>

definition heap_extends :: "'a heap \<Rightarrow> 'a heap \<Rightarrow> bool" where
  "heap_extends h h' =
     (fresh h \<le> fresh h' \<and> list_all (\<lambda>a. deref h' a = deref h a) [0..<fresh h])"


section \<open>Concrete inputs\<close>

definition rf_both :: ReportFlags where
  "rf_both = \<lparr>Billable = True, NotBillable = True, Client = '''', Project = ''''\<rparr>"

definition rf_client :: ReportFlags where
  "rf_client = \<lparr>Billable = False, NotBillable = True, Client = ''me'', Project = ''''\<rparr>"

definition rf_ok :: ReportFlags where
  "rf_ok = \<lparr>Billable = True, NotBillable = False, Client = ''me'', Project = ''mine''\<rparr>"

definition sink0 :: sink where
  "sink0 = \<lparr>written = '''', room = None\<rparr>"

definition broken :: sink where
  "broken = \<lparr>written = '''', room = Some 0\<rparr>"

definition entry :: "string \<Rightarrow> Time \<Rightarrow> Time option \<Rightarrow> TimeEntry" where
  "entry i s e =
     \<lparr>TimeEntry.ID = i, Description = '''', Project = None, Task = None, User = None, Tags = [],
      TimeInterval = \<lparr>Start = s, End = e\<rparr>\<rparr>"

text \<open>
  The scenario of section 8 of the spec, in nanoseconds since midnight: entry \<open>a\<close>
  from 10:00:00 to 10:30:00, entry \<open>b\<close> open since 11:00:00, and a clock that shows
  11:15:00 at every reading.
\<close>

definition scenario :: "TimeEntry list" where
  "scenario =
     [entry ''a'' (36000 * Second) (Some (37800 * Second)), entry ''b'' (39600 * Second) None]"

definition clock_1115 :: clock where
  "clock_1115 = (\<lambda>n. 40500 * Second)"


definition clock_zero :: clock where
  "clock_zero = (\<lambda>n. 0)"

text \<open>A memory with nothing allocated, and an environment without a terminal.\<close>

definition heap0 :: "'a \<Rightarrow> 'a heap" where
  "heap0 z = \<lparr>cells = (\<lambda>a. z), fresh = 0\<rparr>"

definition memory0 :: memory where
  "memory0 = \<lparr>Projects = heap0 zero_Project, Tasks = heap0 zero_Task, Users = heap0 zero_User\<rparr>"

definition world0 :: world where
  "world0 =
     \<lparr>format_local = (\<lambda>layout t. Sprintf_d (t sdiv Second)),
      stdout_char_device = Some False,
      term_width = None,
      ui_HEX = (\<lambda>hex. None),
      tw_render = (\<lambda>tw. Join (header tw) ''|'' @ newline)\<rparr>"

definition enc0 :: "memory \<Rightarrow> TimeEntry \<Rightarrow> error + string" where
  "enc0 mem t = Inr (''{}'')"

text \<open>A clock that advances by one second from one reading to the next.\<close>

definition clock_tick :: clock where
  "clock_tick = (\<lambda>n. int n * Second)"

text \<open>
  A toy template engine: the template \<open>{{\<close> does not parse; evaluation fails on the
  entry with identifier \<open>bad\<close> after emitting \<open><\<close>; otherwise it emits the
  identifier and a letter for each of \<open>First\<close> and \<open>Last\<close>.
\<close>

definition parse0 :: "string \<Rightarrow> error + string" where
  "parse0 format =
     (if format = ''{{'' then Inl (TemplateSyntaxError ''unclosed action'') else Inr format)"

definition exec0 :: "string \<Rightarrow> memory \<Rightarrow> view \<Rightarrow> string \<times> error option" where
  "exec0 t mem v =
     (if TimeEntry.ID (TimeEntry v) = ''bad'' then (''<'', Some (TemplateEvalError ''bad''))
      else (TimeEntry.ID (TimeEntry v) @ (if First v then ''F'' else '''')
              @ (if Last v then ''L'' else ''''), None))"



definition three_entries :: "TimeEntry list" where
  "three_entries = [entry ''a'' 0 None, entry ''b'' 0 None, entry ''c'' 0 None]"

definition failing_entries :: "TimeEntry list" where
  "failing_entries = [entry ''a'' 0 None, entry ''bad'' 0 None, entry ''c'' 0 None]"

text \<open>Two open entries with the same start, and the table options with the total line.\<close>

definition two_open :: "TimeEntry list" where
  "two_open = [entry ''a'' 0 None, entry ''b'' 0 None]"

definition options_total :: TimeEntryOutputOptions where
  "options_total = \<lparr>ShowTasks = False, ShowTotalDuration = True, TimeFormat = TIME_FORMAT_SIMPLE\<rparr>"

definition dur_cells :: "table outcome \<Rightarrow> string list" where
  "dur_cells r = (case r of Panics \<Rightarrow> [] | Returns tw \<Rightarrow> map dur_column (lines tw))"

section \<open>Rounding to float64\<close>

lemma rne_cases: "rne y = \<lfloor>y\<rfloor> \<or> (rne y = \<lfloor>y\<rfloor> + 1 \<and> of_int \<lfloor>y\<rfloor> < y)"
  by (auto simp: rne_def Let_def)

lemma rne_le: "y \<le> of_int m \<Longrightarrow> rne y \<le> m"
proof -
  assume a: "y \<le> of_int m"
  then have f: "\<lfloor>y\<rfloor> \<le> m" by (simp add: floor_le_iff) 
  from rne_cases [of y] show ?thesis
  proof
    assume "rne y = \<lfloor>y\<rfloor>" with f show ?thesis by simp
  next
    assume b: "rne y = \<lfloor>y\<rfloor> + 1 \<and> of_int \<lfloor>y\<rfloor> < y"
    then have "(of_int \<lfloor>y\<rfloor> :: rat) < of_int m" using a by linarith
    then have "\<lfloor>y\<rfloor> < m" by simp
    with b show ?thesis by simp
  qed
qed

lemma rne_ge: "of_int m \<le> y \<Longrightarrow> m \<le> rne y"
proof -
  assume a: "of_int m \<le> y"
  then have f: "m \<le> \<lfloor>y\<rfloor>" by (simp add: le_floor_iff)
  from rne_cases [of y] f show ?thesis by auto
qed

lemma log2n_less: "0 < k \<Longrightarrow> n < 2 ^ k \<Longrightarrow> log2n n < k"
proof (induction k arbitrary: n)
  case 0
  then show ?case by simp
next
  case (Suc k)
  show ?case
  proof (cases "n < 2")
    case True
    then show ?thesis by (simp add: log2n.simps)
  next
    case False
    then have k: "0 < k" using Suc.prems by (cases k) auto
    have "n div 2 < 2 ^ k" using Suc.prems by auto
    with Suc.IH k have "log2n (n div 2) < k" by blast
    with False show ?thesis by (simp add: log2n.simps)
  qed
qed

lemma binexp_less: "0 < a \<Longrightarrow> a < 2 ^ k \<Longrightarrow> 0 < k \<Longrightarrow> binexp a < int k"
proof -
  assume a: "0 < a" and b: "a < 2 ^ k" and k: "0 < k"
  show ?thesis
  proof (cases "1 \<le> a")
    case True
    have "\<lfloor>a\<rfloor> < 2 ^ k" using b by (simp add: floor_less_iff)
    with k have "log2n \<lfloor>a\<rfloor> < k" by (simp add: log2n_less)
    with True show ?thesis by (simp add: binexp_def)
  next
    case False
    then show ?thesis using k by (simp add: binexp_def Let_def)
  qed
qed

lemma scale2_nonneg: "0 \<le> k \<Longrightarrow> scale2 k y = y * 2 ^ nat k"
  by (simp add: scale2_def)

lemma scale2_nonpos: "k \<le> 0 \<Longrightarrow> scale2 k y = y / 2 ^ nat (- k)"
  by (auto simp: scale2_def)

lemma float64_round_pos:
  assumes "0 < x"
  shows "float64_round x =
           (let e = max (binexp x) (- 1022)
            in scale2 (e - 52) (of_int (rne (scale2 (52 - e) x))))"
  using assms by (simp add: float64_round_def Let_def)

lemma float64_round_le:
  assumes x: "0 < x" and xy: "x \<le> y" and grid: "y * 2 ^ k = of_int m"
    and e: "binexp x + int k \<le> 52" and k: "k \<le> 1074"
  shows "float64_round x \<le> y"
proof -
  define e where "e = max (binexp x) (- 1022)"
  define s where "s = nat (52 - e)"
  have ek: "e + int k \<le> 52" using e k by (simp add: e_def)
  then have s: "52 - e = int s" "e - 52 = - int s" "k \<le> s" by (auto simp: s_def)
  have "y * 2 ^ s = y * 2 ^ k * 2 ^ (s - k)"
    using s(3) by (simp add: power_add [symmetric])
  also have "\<dots> = of_int (m * 2 ^ (s - k))" by (simp add: grid)
  finally have ys: "y * 2 ^ s = of_int (m * 2 ^ (s - k))" .
  have "x * 2 ^ s \<le> y * 2 ^ s" using xy by simp
  then have "rne (x * 2 ^ s) \<le> m * 2 ^ (s - k)" unfolding ys by (rule rne_le)
  then have "(of_int (rne (x * 2 ^ s)) :: rat) \<le> of_int (m * 2 ^ (s - k))"
    using of_int_le_iff by blast
  then have "(of_int (rne (x * 2 ^ s)) :: rat) \<le> y * 2 ^ s" by (simp only: ys)
  then have "(of_int (rne (x * 2 ^ s)) :: rat) / 2 ^ s \<le> y"
    by (simp add: divide_le_eq)
  moreover have "float64_round x = of_int (rne (x * 2 ^ s)) / 2 ^ s"
    using x by (simp add: float64_round_pos e_def [symmetric] s scale2_nonneg scale2_nonpos)
  ultimately show ?thesis by simp
qed

lemma float64_round_ge:
  assumes x: "0 < x" and xy: "y \<le> x" and grid: "y * 2 ^ k = of_int m"
    and e: "binexp x + int k \<le> 52" and k: "k \<le> 1074"
  shows "y \<le> float64_round x"
proof -
  define e where "e = max (binexp x) (- 1022)"
  define s where "s = nat (52 - e)"
  have ek: "e + int k \<le> 52" using e k by (simp add: e_def)
  then have s: "52 - e = int s" "e - 52 = - int s" "k \<le> s" by (auto simp: s_def)
  have "y * 2 ^ s = y * 2 ^ k * 2 ^ (s - k)"
    using s(3) by (simp add: power_add [symmetric])
  also have "\<dots> = of_int (m * 2 ^ (s - k))" by (simp add: grid)
  finally have ys: "y * 2 ^ s = of_int (m * 2 ^ (s - k))" .
  have "y * 2 ^ s \<le> x * 2 ^ s" using xy by simp
  then have "m * 2 ^ (s - k) \<le> rne (x * 2 ^ s)" unfolding ys by (rule rne_ge)
  then have "(of_int (m * 2 ^ (s - k)) :: rat) \<le> of_int (rne (x * 2 ^ s))"
    using of_int_le_iff by blast
  then have "y * 2 ^ s \<le> (of_int (rne (x * 2 ^ s)) :: rat)" by (simp only: ys)
  then have "y \<le> (of_int (rne (x * 2 ^ s)) :: rat) / 2 ^ s"
    by (simp add: le_divide_eq)
  moreover have "float64_round x = of_int (rne (x * 2 ^ s)) / 2 ^ s"
    using x by (simp add: float64_round_pos e_def [symmetric] s scale2_nonneg scale2_nonpos)
  ultimately show ?thesis by simp
qed

lemma float64_round_minus: "float64_round (- x) = - float64_round x"
  by (simp add: float64_round_def Let_def)

lemma binexp_lt1: "0 < a \<Longrightarrow> a < 1 \<Longrightarrow> binexp a \<le> 0"
  by (simp add: binexp_def Let_def)

lemma float64_round_int:
  assumes "\<bar>n\<bar> < 2 ^ 53"
  shows "float64_round (of_int n) = of_int n"
proof -
  have pos: "float64_round (of_int m) = of_int m" if m: "0 < m" "m < 2 ^ 53" for m :: int
  proof -
    have x: "(0::rat) < of_int m" using m by simp
    have "(of_int m :: rat) < 2 ^ 53" using m(2) of_int_less_iff [of m "2 ^ 53", where ?'a = rat] by simp
    then have "binexp (of_int m) < int 53" using x by (intro binexp_less) simp_all
    then have e: "binexp (of_int m) + int 0 \<le> 52" by simp
    have g: "(of_int m :: rat) * 2 ^ 0 = of_int m" by simp
    have "float64_round (of_int m) \<le> of_int m"
      by (rule float64_round_le [OF x order_refl g e]) simp
    moreover have "of_int m \<le> float64_round (of_int m)"
      by (rule float64_round_ge [OF x order_refl g e]) simp
    ultimately show ?thesis by simp
  qed
  consider "n = 0" | "0 < n" | "n < 0" by linarith
  then show ?thesis
  proof cases
    case 1 then show ?thesis by (simp add: float64_round_def)
  next
    case 2 with assms show ?thesis by (intro pos) simp_all
  next
    case 3
    with assms have "float64_round (of_int (- n)) = of_int (- n)" by (intro pos) simp_all
    then show ?thesis by (simp add: float64_round_minus)
  qed
qed

lemma float64_round_nonneg: "0 \<le> x \<Longrightarrow> 0 \<le> float64_round x"
  by (simp add: float64_round_def Let_def scale2_def rne_ge)

lemma binexp_lt1_strict: "0 < a \<Longrightarrow> a < 1 \<Longrightarrow> binexp a \<le> - 1"
proof -
  assume a: "0 < a" "a < 1"
  then have "1 < 1 / a" by simp
  then have "1 < \<lceil>1 / a\<rceil>" by (simp add: less_ceiling_iff)
  with a show ?thesis by (simp add: binexp_def Let_def)
qed

lemma rne_upper: "of_int (rne y) \<le> y + 1 / 2"
proof -
  have "y - of_int \<lfloor>y\<rfloor> < 1 / 2 \<or> 1 / 2 \<le> y - of_int \<lfloor>y\<rfloor>" by linarith
  then show ?thesis
  proof
    assume "y - of_int \<lfloor>y\<rfloor> < 1 / 2"
    then have "rne y = \<lfloor>y\<rfloor>" by (simp add: rne_def Let_def)
    moreover have "of_int \<lfloor>y\<rfloor> \<le> y" by (rule of_int_floor_le)
    ultimately show ?thesis by linarith
  next
    assume h: "1 / 2 \<le> y - of_int \<lfloor>y\<rfloor>"
    have "rne y \<le> \<lfloor>y\<rfloor> + 1" using rne_cases [of y] by auto
    then have "(of_int (rne y) :: rat) \<le> of_int (\<lfloor>y\<rfloor> + 1)" using of_int_le_iff by blast
    with h show ?thesis by simp
  qed
qed

text \<open>Rounding adds at most half a unit in the last place.\<close>

lemma float64_round_upper:
  assumes x: "0 < x" and e: "binexp x + int n \<le> 53" and n: "1 \<le> n" "n \<le> 1075"
  shows "float64_round x \<le> x + 1 / 2 ^ n"
proof -
  define e where "e = max (binexp x) (- 1022)"
  define s where "s = nat (52 - e)"
  have "e + int n \<le> 53" using assms by (simp add: e_def)
  then have s: "52 - e = int s" "e - 52 = - int s" "n \<le> Suc s" using n by (auto simp: s_def)
  have fl: "float64_round x = of_int (rne (x * 2 ^ s)) / 2 ^ s"
    using x by (simp add: float64_round_pos e_def [symmetric] s scale2_nonneg scale2_nonpos)
  have "of_int (rne (x * 2 ^ s)) / 2 ^ s \<le> (x * 2 ^ s + 1 / 2) / (2 ^ s :: rat)"
    using rne_upper [of "x * 2 ^ s"] by (simp add: divide_right_mono)
  also have "\<dots> = x + 1 / 2 ^ Suc s" by (simp add: field_simps)
  also have "\<dots> \<le> x + 1 / 2 ^ n"
  proof -
    have "(2::rat) ^ n \<le> 2 ^ Suc s" using s(3) by (intro power_increasing) simp_all
    then have "1 / (2::rat) ^ Suc s \<le> 1 / 2 ^ n" by (intro divide_left_mono) simp_all
    then show ?thesis by simp
  qed
  finally show ?thesis by (simp only: fl)
qed

lemma unit_trunc:
  fixes U d :: int and k :: nat
  assumes U: "0 < U" "U < 2 ^ 53" "of_int U * (1 / 2 ^ k + 1 / 2 ^ 54) < (1::rat)"
    and k: "1 \<le> k" "k \<le> 53"
    and d: "0 \<le> d" "d div U < 2 ^ (54 - k)"
  shows "int64_of_float64
           (float64_add (float64_of_int64 (d div U))
              (float64_div (float64_of_int64 (d mod U)) (float64_round (of_int U)))) = d div U"
proof -
  define q where "q = d div U"
  define r where "r = d mod U"
  have q: "0 \<le> q" "q < 2 ^ (54 - k)" using d U by (simp_all add: q_def pos_imp_zdiv_nonneg_iff)
  have r: "0 \<le> r" "r < U" using U by (simp_all add: r_def)
  have p53: "(2::int) ^ (54 - k) \<le> 2 ^ 53" using k by (intro power_increasing) simp_all
  have flq: "float64_of_int64 q = of_int q"
    unfolding float64_of_int64_def using q p53 by (intro float64_round_int) simp
  have flr: "float64_of_int64 r = of_int r"
    unfolding float64_of_int64_def using r U by (intro float64_round_int) simp
  have flU: "float64_round (of_int U) = of_int U"
    using U by (intro float64_round_int) simp
  define f where "f = float64_round (of_int r / of_int U)"
  have Urat: "(0::rat) < of_int U" using U by simp
  have f0: "0 \<le> f" unfolding f_def using r Urat by (intro float64_round_nonneg) simp
  have f1: "f \<le> 1 - 1 / of_int U + 1 / 2 ^ 54"
  proof (cases "r = 0")
    case True
    have "1 / (of_int U :: rat) \<le> 1" using U by simp
    then have "(0::rat) \<le> 1 - 1 / of_int U + 1 / 2 ^ 54" by simp
    with True show ?thesis by (simp add: f_def float64_round_def)
  next
    case False
    then have rpos: "0 < r" using r by simp
    have x: "(0::rat) < of_int r / of_int U" using rpos Urat by simp
    have x1: "of_int r / of_int U < (1::rat)" using r Urat by simp
    have "of_int r \<le> (of_int U :: rat) - 1"
      using r(2) of_int_le_iff [of r "U - 1", where ?'a = rat] by simp
    then have "of_int r / of_int U \<le> ((of_int U :: rat) - 1) / of_int U"
      using Urat by (simp add: divide_right_mono)
    also have "\<dots> = 1 - 1 / of_int U" using Urat by (simp add: field_simps)
    finally have xy: "of_int r / of_int U \<le> (1 - 1 / of_int U :: rat)" .
    have e: "binexp (of_int r / of_int U) + int 54 \<le> 53"
      using binexp_lt1_strict [OF x x1] by simp
    have "f \<le> of_int r / of_int U + 1 / 2 ^ 54"
      unfolding f_def by (rule float64_round_upper [OF x e]) simp_all
    with xy show ?thesis by linarith
  qed
  define x2 where "x2 = of_int q + f"
  have gap: "(1 / 2 ^ k + 1 / 2 ^ 54 :: rat) < 1 / of_int U"
    using U(3) Urat by (simp add: field_simps)
  have res: "of_int q \<le> float64_round x2 \<and> float64_round x2 < of_int q + 1"
  proof (cases "x2 = 0")
    case True
    then have "q = 0" using q f0 by (simp add: x2_def add_nonneg_eq_0_iff)
    with True show ?thesis by (simp add: float64_round_def)
  next
    case False
    then have x: "0 < x2" using q f0 by (simp add: x2_def less_le)
    have "(0::rat) < 1 / 2 ^ k" by simp
    with gap have "1 / (of_int U :: rat) > 1 / 2 ^ 54" by linarith
    then have "f < 1" using f1 by linarith
    then have "x2 < of_int q + 1" by (simp add: x2_def)
    also have "\<dots> \<le> 2 ^ (54 - k)"
      using q(2) of_int_le_iff [of "q + 1" "2 ^ (54 - k)", where ?'a = rat] by simp
    finally have "binexp x2 < int (54 - k)" using x k by (intro binexp_less) simp_all
    then have e: "binexp x2 + int k \<le> 53" and e0: "binexp x2 + int 0 \<le> 52" using k by simp_all
    have g0: "(of_int q :: rat) * 2 ^ 0 = of_int q" by simp
    have lo: "of_int q \<le> x2" using f0 by (simp add: x2_def)
    have "float64_round x2 \<le> x2 + 1 / 2 ^ k"
      by (rule float64_round_upper [OF x e]) (use k in simp_all)
    then have "float64_round x2 \<le> of_int q + 1 - 1 / of_int U + 1 / 2 ^ 54 + 1 / 2 ^ k"
      using f1 by (simp add: x2_def)
    then have "float64_round x2 < of_int q + 1" using gap by linarith
    moreover have "of_int q \<le> float64_round x2"
      by (rule float64_round_ge [OF x lo g0 e0]) simp
    ultimately show ?thesis by simp
  qed
  have "(0::rat) \<le> of_int q" using q by simp
  with res have "0 \<le> float64_round x2" by linarith
  then have "int64_of_float64 (float64_round x2) = \<lfloor>float64_round x2\<rfloor>"
    by (simp add: int64_of_float64_def)
  also have "\<dots> = q" using res by (simp add: floor_unique)
  finally show ?thesis
    by (simp add: float64_add_def float64_div_def flq flr flU q_def [symmetric] r_def [symmetric]
        x2_def f_def)
qed

section \<open>Hours, minutes and seconds of a duration\<close>

lemma sdiv_nonneg: "0 \<le> a \<Longrightarrow> 0 < b \<Longrightarrow> a sdiv b = a div (b::int)"
  by (auto simp: signed_divide_int_def sgn_if)

lemma smod_nonneg: "0 \<le> a \<Longrightarrow> 0 < b \<Longrightarrow> a smod b = a mod (b::int)"
  by (auto simp: signed_modulo_int_def sgn_if)

lemma sdiv_minus: "(- a) sdiv b = - (a sdiv (b::int))"
  by (simp add: signed_divide_int_def sgn_minus)

lemma smod_minus: "(- a) smod b = - (a smod (b::int))"
  by (simp add: signed_modulo_int_def sgn_minus)

lemma int64_of_float64_minus: "int64_of_float64 (- x) = - int64_of_float64 x"
  by (auto simp: int64_of_float64_def ceiling_def)

lemma int64_of_float64_nonneg: "0 \<le> x \<Longrightarrow> 0 \<le> int64_of_float64 x"
  by (simp add: int64_of_float64_def)

lemma Duration_Hours_unit: "Duration_Hours d = unit_float Hour d"
  by (simp add: Duration_Hours_def unit_float_def Hour_def Minute_def Second_def)

lemma Duration_Minutes_unit: "Duration_Minutes d = unit_float Minute d"
  by (simp add: Duration_Minutes_def unit_float_def Minute_def Second_def)

lemma Duration_Seconds_unit: "Duration_Seconds d = unit_float Second d"
  by (simp add: Duration_Seconds_def unit_float_def Second_def)

lemma float64_round_minus_diff: "float64_round (- a - b) = - float64_round (a + b)"
  using float64_round_minus [of "a + b"] by simp

lemma unit_float_minus: "unit_float U (- d) = - unit_float U d"
  by (simp add: unit_float_def sdiv_minus smod_minus float64_of_int64_def float64_add_def
      float64_div_def float64_round_minus float64_round_minus_diff)

lemma unit_float_nonneg:
  assumes "0 \<le> d" "0 < U"
  shows "0 \<le> unit_float U d"
proof -
  have "0 \<le> d div U" "0 \<le> d mod U" using assms by (simp_all add: pos_imp_zdiv_nonneg_iff)
  then show ?thesis using assms
    by (simp add: unit_float_def sdiv_nonneg smod_nonneg float64_of_int64_def float64_add_def
        float64_div_def float64_round_nonneg)
qed

lemma unit_float_trunc:
  assumes U: "0 < U" "U < 2 ^ 53" "of_int U * (1 / 2 ^ k + 1 / 2 ^ 54) < (1::rat)"
    and k: "1 \<le> k" "k \<le> 53" and d: "\<bar>d\<bar> div U < 2 ^ (54 - k)"
  shows "int64_of_float64 (unit_float U d) = d sdiv U"
proof -
  have pos: "int64_of_float64 (unit_float U a) = a sdiv U"
    if "0 \<le> a" "a div U < 2 ^ (54 - k)" for a
    using unit_trunc [OF U k that] that(1) U(1)
    by (simp add: unit_float_def sdiv_nonneg smod_nonneg)
  show ?thesis
  proof (cases "0 \<le> d")
    case True
    with d show ?thesis by (intro pos) simp_all
  next
    case False
    with d have "int64_of_float64 (unit_float U (- d)) = (- d) sdiv U" by (intro pos) simp_all
    then show ?thesis by (simp add: unit_float_minus int64_of_float64_minus sdiv_minus)
  qed
qed

lemma small_div:
  assumes "\<bar>d\<bar> < 4096 * Hour"
  shows "\<bar>d\<bar> div Hour < 2 ^ 12" "\<bar>d\<bar> div Minute < 2 ^ 18" "\<bar>d\<bar> div Second < 2 ^ 24"
  using assms by (simp_all add: Hour_def Minute_def Second_def)

lemma Hours_trunc: "\<bar>d\<bar> < 4096 * Hour \<Longrightarrow> int64_of_float64 (Duration_Hours d) = d sdiv Hour"
  unfolding Duration_Hours_unit
  by (rule unit_float_trunc [where k = 42])
    (simp_all add: small_div, simp_all add: Hour_def Minute_def Second_def)

lemma Minutes_trunc:
  "\<bar>d\<bar> < 4096 * Hour \<Longrightarrow> int64_of_float64 (Duration_Minutes d) = d sdiv Minute"
  unfolding Duration_Minutes_unit
  by (rule unit_float_trunc [where k = 36])
    (simp_all add: small_div, simp_all add: Hour_def Minute_def Second_def)

lemma Seconds_trunc:
  "\<bar>d\<bar> < 4096 * Hour \<Longrightarrow> int64_of_float64 (Duration_Seconds d) = d sdiv Second"
  unfolding Duration_Seconds_unit
  by (rule unit_float_trunc [where k = 30])
    (simp_all add: small_div, simp_all add: Hour_def Minute_def Second_def)

lemma durationToString_exact:
  "\<bar>d\<bar> < 4096 * Hour \<Longrightarrow>
     durationToString d =
       Sprintf_d (d sdiv Hour) @ '':'' @ Sprintf_02d ((d sdiv Minute) smod 60) @ '':''
         @ Sprintf_02d ((d sdiv Second) smod 60)"
  by (simp add: durationToString_def Hours_trunc Minutes_trunc Seconds_trunc)

section \<open>The text of a duration\<close>

lemma is_digit_digit_char: "0 \<le> n \<Longrightarrow> n < 10 \<Longrightarrow> is_digit (digit_char n)"
proof -
  assume "0 \<le> n" "n < 10"
  then have "nat n < length ''0123456789''" by simp
  then have "''0123456789'' ! nat n \<in> set ''0123456789''" by (rule nth_mem)
  then show ?thesis by (simp only: is_digit_def digit_char_def)
qed

lemma decimal_digits: "0 \<le> n \<Longrightarrow> (\<forall>c \<in> set (decimal n). is_digit c) \<and> decimal n \<noteq> []"
proof (induction n rule: decimal.induct)
  case (1 n)
  show ?case
  proof (cases "n < 10")
    case True
    with "1.prems" show ?thesis by (simp add: decimal.simps [of n] is_digit_digit_char)
  next
    case False
    then have "0 \<le> n div 10" by simp
    with "1.IH" False have "\<forall>c \<in> set (decimal (n div 10)). is_digit c" by simp
    moreover have "is_digit (digit_char (n mod 10))" by (simp add: is_digit_digit_char)
    ultimately show ?thesis using False by (simp add: decimal.simps [of n])
  qed
qed

lemma decimal_two:
  assumes "0 \<le> n" "n < 100"
  shows "zero_pad 2 (decimal n) = two_digits n"
proof (cases "n < 10")
  case True
  then have "digit_char 0 = CHR ''0''" by (simp add: digit_char_def)
  with True assms show ?thesis by (simp add: decimal.simps [of n] zero_pad_def two_digits_def)
next
  case False
  then have "n div 10 < 10" using assms by simp
  with False show ?thesis
    by (simp add: decimal.simps [of n] decimal.simps [of "n div 10"] zero_pad_def two_digits_def)
qed

lemma Sprintf_02d_two: "0 \<le> n \<Longrightarrow> n < 100 \<Longrightarrow> Sprintf_02d n = two_digits n"
  by (simp add: Sprintf_02d_def decimal_two)

lemma not_digit_colon: "\<not> is_digit (CHR '':'')"
  by (simp add: is_digit_def)

lemma not_digit_minus: "\<not> is_digit (CHR ''-'')"
  by (simp add: is_digit_def)

lemma HMMSS_shapeI:
  assumes h: "0 \<le> h" and m: "0 \<le> m" "m < 100" and s: "0 \<le> s" "s < 100"
  shows "HMMSS_shape (decimal h @ '':'' @ two_digits m @ '':'' @ two_digits s)"
proof -
  let ?rest = "'':'' @ two_digits m @ '':'' @ two_digits s"
  have dh: "\<forall>c \<in> set (decimal h). is_digit c" "decimal h \<noteq> []"
    using decimal_digits [OF h] by simp_all
  have tw: "takeWhile is_digit (decimal h @ ?rest) = decimal h"
    using dh(1) by (simp add: takeWhile_append2 not_digit_colon)
  have dw: "dropWhile is_digit (decimal h @ ?rest) = ?rest"
    using dh(1) by (simp add: dropWhile_append2 not_digit_colon)
  have "m div 10 < 10" "s div 10 < 10" "0 \<le> m div 10" "0 \<le> s div 10" using m s by simp_all
  then have "is_digit (digit_char (m div 10))" "is_digit (digit_char (m mod 10))"
    "is_digit (digit_char (s div 10))" "is_digit (digit_char (s mod 10))"
    by (simp_all add: is_digit_digit_char)
  then show ?thesis
    unfolding HMMSS_shape_def tw dw using dh(2) by (simp add: two_digits_def)
qed

lemma HMMSS_shape_no_minus: "HMMSS_shape s \<Longrightarrow> CHR ''-'' \<notin> set s"
proof
  assume sh: "HMMSS_shape s" and mem: "CHR ''-'' \<in> set s"
  have "s = takeWhile is_digit s @ dropWhile is_digit s" by simp
  then have "CHR ''-'' \<in> set (takeWhile is_digit s) \<or> CHR ''-'' \<in> set (dropWhile is_digit s)"
    using mem by (metis Un_iff set_append)
  then show False
  proof
    assume "CHR ''-'' \<in> set (takeWhile is_digit s)"
    then have "is_digit (CHR ''-'')" by (rule set_takeWhileD [THEN conjunct2])
    then show False by (simp add: not_digit_minus)
  next
    assume a: "CHR ''-'' \<in> set (dropWhile is_digit s)"
    from sh obtain c1 m1 m2 c2 s1 s2 where
      d: "dropWhile is_digit s = [c1, m1, m2, c2, s1, s2]" and
      p: "c1 = CHR '':''" "is_digit m1" "is_digit m2" "c2 = CHR '':''" "is_digit s1" "is_digit s2"
      by (auto simp: HMMSS_shape_def split: list.splits)
    from a d p show False by (auto simp: not_digit_minus)
  qed
qed

lemma Sprintf_d_neg: "n < 0 \<Longrightarrow> CHR ''-'' \<in> set (Sprintf_d n)"
  by (simp add: Sprintf_d_def)

lemma Sprintf_02d_neg: "n < 0 \<Longrightarrow> CHR ''-'' \<in> set (Sprintf_02d n)"
  by (simp add: Sprintf_02d_def)

lemma durationToString_nonneg:
  assumes "0 \<le> d"
  shows "0 \<le> int64_of_float64 (Duration_Hours d)"
    and "0 \<le> int64_of_float64 (Duration_Minutes d) smod 60"
    and "int64_of_float64 (Duration_Minutes d) smod 60 < 60"
    and "0 \<le> int64_of_float64 (Duration_Seconds d) smod 60"
    and "int64_of_float64 (Duration_Seconds d) smod 60 < 60"
    and "durationToString d =
           decimal (int64_of_float64 (Duration_Hours d)) @ '':''
             @ two_digits (int64_of_float64 (Duration_Minutes d) smod 60) @ '':''
             @ two_digits (int64_of_float64 (Duration_Seconds d) smod 60)"
proof -
  have h: "0 \<le> int64_of_float64 (Duration_Hours d)"
    and m: "0 \<le> int64_of_float64 (Duration_Minutes d)"
    and s: "0 \<le> int64_of_float64 (Duration_Seconds d)"
    using assms
    by (simp_all add: Duration_Hours_unit Duration_Minutes_unit Duration_Seconds_unit
        int64_of_float64_nonneg unit_float_nonneg Hour_def Minute_def Second_def)
  show "0 \<le> int64_of_float64 (Duration_Hours d)" by (rule h)
  show m60: "0 \<le> int64_of_float64 (Duration_Minutes d) smod 60"
    "int64_of_float64 (Duration_Minutes d) smod 60 < 60"
    using m by (simp_all add: smod_nonneg)
  show s60: "0 \<le> int64_of_float64 (Duration_Seconds d) smod 60"
    "int64_of_float64 (Duration_Seconds d) smod 60 < 60"
    using s by (simp_all add: smod_nonneg)
  show "durationToString d =
           decimal (int64_of_float64 (Duration_Hours d)) @ '':''
             @ two_digits (int64_of_float64 (Duration_Minutes d) smod 60) @ '':''
             @ two_digits (int64_of_float64 (Duration_Seconds d) smod 60)"
    using h m60 s60 by (simp add: durationToString_def Sprintf_d_def Sprintf_02d_two)
qed

lemma durationToString_small:
  assumes "0 \<le> d" "d < 4096 * Hour"
  shows "durationToString d =
           decimal (d div Hour) @ '':'' @ two_digits (d div Minute mod 60) @ '':''
             @ two_digits (d div Second mod 60)"
proof -
  have a: "\<bar>d\<bar> < 4096 * Hour" using assms by simp
  have q: "0 \<le> d div Hour" "0 \<le> d div Minute" "0 \<le> d div Second"
    using assms by (simp_all add: Hour_def Minute_def Second_def pos_imp_zdiv_nonneg_iff)
  have "d sdiv Hour = d div Hour" "d sdiv Minute = d div Minute" "d sdiv Second = d div Second"
    using assms by (simp_all add: sdiv_nonneg Hour_def Minute_def Second_def)
  then show ?thesis
    using q by (simp add: durationToString_exact [OF a] smod_nonneg Sprintf_d_def Sprintf_02d_two)
qed

lemma negative_component:
  assumes "d \<le> - Second"
  shows "d sdiv Hour < 0 \<or> (d sdiv Minute) smod 60 < 0 \<or> (d sdiv Second) smod 60 < 0"
proof -
  define a where "a = - d"
  have a: "Second \<le> a" using assms by (simp add: a_def)
  then have a0: "0 \<le> a" by (simp add: Second_def)
  have d: "d = - a" by (simp add: a_def)
  have S: "1 \<le> a div Second" using a by (simp add: Second_def) 
  have M: "a div Minute = a div Second div 60" by (simp add: Minute_def Second_def zdiv_zmult2_eq)
  have H: "a div Hour = a div Minute div 60" by (simp add: Hour_def Minute_def Second_def zdiv_zmult2_eq)
  have nn: "0 \<le> a div Hour" "0 \<le> a div Minute" "0 \<le> a div Second"
    using a0 by (simp_all add: Hour_def Minute_def Second_def pos_imp_zdiv_nonneg_iff)
  have "0 < a div Hour \<or> 0 < a div Minute mod 60 \<or> 0 < a div Second mod 60"
  proof (rule ccontr)
    assume "\<not> ?thesis"
    with nn have z: "a div Hour = 0" "a div Minute mod 60 = 0" "a div Second mod 60 = 0"
      by (simp_all add: not_less order_antisym)
    have "a div Minute = 60 * (a div Minute div 60) + a div Minute mod 60" by simp
    with z H have "a div Minute = 0" by simp
    moreover have "a div Second = 60 * (a div Second div 60) + a div Second mod 60" by simp
    ultimately have "a div Second = 0" using z M by simp
    with S show False by simp
  qed
  then show ?thesis
    using a0 nn unfolding d
    by (simp add: sdiv_minus smod_minus sdiv_nonneg smod_nonneg Hour_def Minute_def Second_def)
qed

lemma durationToString_negative:
  assumes "- (4096 * Hour) < d" "d \<le> - Second"
  shows "CHR ''-'' \<in> set (durationToString d)"
proof -
  have a: "\<bar>d\<bar> < 4096 * Hour" using assms by (simp add: Second_def)
  from negative_component [OF assms(2)] show ?thesis
    unfolding durationToString_exact [OF a]
    by (auto simp: Sprintf_d_neg Sprintf_02d_neg)
qed

lemma unit_float_lower:
  fixes U a :: int
  assumes U: "0 < U" "U < 2 ^ 53" and a: "0 \<le> a" "a div U < 2 ^ 53 - 1"
  shows "a div U \<le> int64_of_float64 (unit_float U a)"
proof -
  define q where "q = a div U"
  define r where "r = a mod U"
  have q: "0 \<le> q" "q < 2 ^ 53 - 1" using a U by (simp_all add: q_def pos_imp_zdiv_nonneg_iff)
  have r: "0 \<le> r" "r < U" using U by (simp_all add: r_def)
  have flq: "float64_of_int64 q = of_int q"
    unfolding float64_of_int64_def using q by (intro float64_round_int) simp
  have flr: "float64_of_int64 r = of_int r"
    unfolding float64_of_int64_def using r U by (intro float64_round_int) simp
  have flU: "float64_round (of_int U) = of_int U"
    using U by (intro float64_round_int) simp
  define f where "f = float64_round (of_int r / of_int U)"
  have Urat: "(0::rat) < of_int U" using U by simp
  have f0: "0 \<le> f" unfolding f_def using r Urat by (intro float64_round_nonneg) simp
  have f1: "f \<le> 1"
  proof (cases "r = 0")
    case True
    then show ?thesis by (simp add: f_def float64_round_def)
  next
    case False
    then have x: "(0::rat) < of_int r / of_int U" using r Urat by simp
    have x1: "of_int r / of_int U < (1::rat)" using r Urat by simp
    then have xy: "of_int r / of_int U \<le> (1::rat)" by simp
    have e: "binexp (of_int r / of_int U) + int 0 \<le> 52" using binexp_lt1 [OF x x1] by simp
    have g: "(1::rat) * 2 ^ 0 = of_int 1" by simp
    show ?thesis unfolding f_def by (rule float64_round_le [OF x xy g e]) simp
  qed
  define x2 where "x2 = of_int q + f"
  have lo: "of_int q \<le> x2" using f0 by (simp add: x2_def)
  have "of_int q \<le> float64_round x2"
  proof (cases "x2 = 0")
    case True
    then have "q = 0" using q f0 by (simp add: x2_def add_nonneg_eq_0_iff)
    with True show ?thesis by (simp add: float64_round_def)
  next
    case False
    then have x: "0 < x2" using q f0 by (simp add: x2_def less_le)
    have "x2 \<le> of_int q + 1" using f1 by (simp add: x2_def)
    also have "\<dots> < 2 ^ 53"
      using q(2) of_int_less_iff [of "q + 1" "2 ^ 53", where ?'a = rat] by simp
    finally have "binexp x2 < int 53" using x by (intro binexp_less) simp_all
    then have e0: "binexp x2 + int 0 \<le> 52" by simp
    have g0: "(of_int q :: rat) * 2 ^ 0 = of_int q" by simp
    show ?thesis by (rule float64_round_ge [OF x lo g0 e0]) simp
  qed
  moreover have "(0::rat) \<le> of_int q" using q by simp
  ultimately have "q \<le> int64_of_float64 (float64_round x2)"
    by (simp add: int64_of_float64_def le_floor_iff)
  then show ?thesis
    using a(1) U(1)
    by (simp add: unit_float_def sdiv_nonneg smod_nonneg float64_add_def float64_div_def flq flr flU
        q_def [symmetric] r_def [symmetric] x2_def f_def)
qed

lemma durationToString_negative_all:
  assumes "minDuration \<le> d" "d \<le> - Second"
  shows "CHR ''-'' \<in> set (durationToString d)"
proof (cases "- (4096 * Hour) < d")
  case True
  then show ?thesis using assms(2) by (rule durationToString_negative)
next
  case False
  define a where "a = - d"
  have a: "4096 * Hour \<le> a" "a \<le> 2 ^ 63" using False assms(1) by (simp_all add: a_def minDuration_def)
  then have a0: "0 \<le> a" by (simp add: Hour_def Minute_def Second_def)
  have "a div Hour < 2 ^ 53 - 1" using a(2) a0 by (simp add: Hour_def Minute_def Second_def)
  then have "a div Hour \<le> int64_of_float64 (unit_float Hour a)"
    using a0 by (intro unit_float_lower) (simp_all add: Hour_def Minute_def Second_def)
  moreover have "4096 \<le> a div Hour" using a(1) by (simp add: Hour_def Minute_def Second_def)
  ultimately have "int64_of_float64 (Duration_Hours d) < 0"
    by (simp add: Duration_Hours_unit a_def unit_float_minus int64_of_float64_minus)
  then show ?thesis by (simp add: durationToString_def Sprintf_d_neg)
qed

section \<open>The shape of durationToString\<close>

text \<open>
  C10 (as amended). For every duration \<open>d \<ge> 0\<close> the text has the shape \<open>H:MM:SS\<close>: the
  hours in decimal, and minutes and seconds between 00 and 59, each in two digits. For
  \<open>0 \<le> d\<close> below 4096 hours the three numbers are the whole hours of \<open>d\<close>, the whole
  minutes modulo 60 and the whole seconds modulo 60. For every negative duration of one
  second or more the text contains a minus sign and does not have the shape.
\<close>

theorem durationToString_shape:
  "(0 \<le> d \<longrightarrow>
      0 \<le> int64_of_float64 (Duration_Hours d) \<and>
      0 \<le> int64_of_float64 (Duration_Minutes d) smod 60 \<and>
      int64_of_float64 (Duration_Minutes d) smod 60 < 60 \<and>
      0 \<le> int64_of_float64 (Duration_Seconds d) smod 60 \<and>
      int64_of_float64 (Duration_Seconds d) smod 60 < 60 \<and>
      durationToString d =
        decimal (int64_of_float64 (Duration_Hours d)) @ '':''
          @ two_digits (int64_of_float64 (Duration_Minutes d) smod 60) @ '':''
          @ two_digits (int64_of_float64 (Duration_Seconds d) smod 60) \<and>
      HMMSS_shape (durationToString d)) \<and>
   (0 \<le> d \<and> d < 4096 * Hour \<longrightarrow>
      durationToString d =
        decimal (d div Hour) @ '':'' @ two_digits (d div Minute mod 60) @ '':''
          @ two_digits (d div Second mod 60)) \<and>
   (minDuration \<le> d \<and> d \<le> - Second \<longrightarrow>
      CHR ''-'' \<in> set (durationToString d) \<and> \<not> HMMSS_shape (durationToString d))"
proof (intro conjI impI)
  assume d: "0 \<le> d"
  note n = durationToString_nonneg [OF d]
  show "0 \<le> int64_of_float64 (Duration_Hours d)" by (rule n(1))
  show "0 \<le> int64_of_float64 (Duration_Minutes d) smod 60" by (rule n(2))
  show "int64_of_float64 (Duration_Minutes d) smod 60 < 60" by (rule n(3))
  show "0 \<le> int64_of_float64 (Duration_Seconds d) smod 60" by (rule n(4))
  show "int64_of_float64 (Duration_Seconds d) smod 60 < 60" by (rule n(5))
  show "durationToString d =
        decimal (int64_of_float64 (Duration_Hours d)) @ '':''
          @ two_digits (int64_of_float64 (Duration_Minutes d) smod 60) @ '':''
          @ two_digits (int64_of_float64 (Duration_Seconds d) smod 60)" by (rule n(6))
  show "HMMSS_shape (durationToString d)"
    unfolding n(6) using n(1-5) by (intro HMMSS_shapeI) simp_all
next
  assume "0 \<le> d \<and> d < 4096 * Hour"
  then show "durationToString d =
        decimal (d div Hour) @ '':'' @ two_digits (d div Minute mod 60) @ '':''
          @ two_digits (d div Second mod 60)"
    by (simp add: durationToString_small)
next
  assume a: "minDuration \<le> d \<and> d \<le> - Second"
  then show m: "CHR ''-'' \<in> set (durationToString d)" by (simp add: durationToString_negative_all)
  then show "\<not> HMMSS_shape (durationToString d)" using HMMSS_shape_no_minus by blast
qed

theorem durationToString_shape_witness:
  "durationToString (45 * Minute) = ''0:45:00'' \<and> HMMSS_shape (durationToString (45 * Minute)) \<and>
   CHR ''-'' \<in> set (durationToString (- (90 * Second)))"
proof -
  have a: "0 \<le> 45 * Minute" "0 \<le> 45 * Minute \<and> 45 * Minute < 4096 * Hour"
    by (simp_all add: Hour_def Minute_def Second_def)
  have b: "minDuration \<le> - (90 * Second) \<and> - (90 * Second) \<le> - Second"
    by (simp add: minDuration_def Second_def)
  have "durationToString (45 * Minute) =
          decimal (45 * Minute div Hour) @ '':'' @ two_digits (45 * Minute div Minute mod 60) @ '':''
            @ two_digits (45 * Minute div Second mod 60)"
    using durationToString_shape [of "45 * Minute"] a(2) by blast
  also have "\<dots> = ''0:45:00''" by code_simp
  finally have 1: "durationToString (45 * Minute) = ''0:45:00''" .
  have 2: "HMMSS_shape (durationToString (45 * Minute))"
    using durationToString_shape [of "45 * Minute"] a(1) by blast
  have 3: "CHR ''-'' \<in> set (durationToString (- (90 * Second)))"
    using durationToString_shape [of "- (90 * Second)"] b by blast
  from 1 2 3 show ?thesis by blast
qed

lemma big_duration_text: "durationToString (4097 * Hour - 1) = ''4097:59:59''"
  by code_simp

lemma big_duration_hours: "int64_of_float64 (Duration_Hours (4097 * Hour - 1)) = 4097"
  by code_simp

lemma tiny_negative_text: "durationToString (- 1) = ''0:00:00''"
  by (simp add: durationToString_exact Hour_def Minute_def Second_def Sprintf_d_def
      Sprintf_02d_def signed_divide_int_def signed_modulo_int_def decimal.simps zero_pad_def
      digit_char_def)

lemma zero_text_shape: "HMMSS_shape ''0:00:00''"
  by (simp add: HMMSS_shape_def is_digit_def)

text \<open>
  The claim as stated fails twice. One nanosecond short of 4097 hours, \<open>Hours()\<close>
  rounds up to 4097, although the duration has 4096 whole hours; and a negative duration
  shorter than a second prints as \<open>0:00:00\<close>, with no negative component.
\<close>

theorem durationToString_counterexample:
  "0 \<le> 4097 * Hour - 1 \<and>
   int64_of_float64 (Duration_Hours (4097 * Hour - 1)) = 4097 \<and>
   (4097 * Hour - 1) div Hour = 4096 \<and>
   durationToString (4097 * Hour - 1) = ''4097:59:59'' \<and>
   (- 1 :: Duration) < 0 \<and>
   durationToString (- 1) = ''0:00:00'' \<and>
   CHR ''-'' \<notin> set (durationToString (- 1)) \<and>
   HMMSS_shape (durationToString (- 1))"
  using big_duration_text big_duration_hours tiny_negative_text zero_text_shape
  by (simp add: Hour_def Minute_def Second_def)

section \<open>The total duration\<close>

lemma int64_wrap_add_left: "int64_wrap (int64_wrap x + y) = int64_wrap (x + y)"
proof -
  have "(((x + 2 ^ 63) mod 2 ^ 64 - 2 ^ 63) + y + 2 ^ 63) mod 2 ^ 64
        = ((x + 2 ^ 63) mod 2 ^ 64 + y) mod (2 ^ 64 :: int)"
    by (simp add: algebra_simps)
  also have "\<dots> = (x + 2 ^ 63 + y) mod 2 ^ 64" by (simp only: mod_add_left_eq)
  also have "\<dots> = (x + y + 2 ^ 63) mod 2 ^ 64" by (simp add: algebra_simps)
  finally show ?thesis by (simp only: int64_wrap_def)
qed


lemma length_elapsed_from [simp]: "length (elapsed_from clk ts) = length ts"
  by (induction ts arbitrary: clk) simp_all

lemma nth_elapsed_from:
  "i < length ts \<Longrightarrow> elapsed_from clk ts ! i = elapsed (clk i) (ts ! i)"
proof (induction ts arbitrary: clk i)
  case Nil
  then show ?case by simp
next
  case (Cons t ts)
  then show ?case by (cases i) simp_all
qed

lemma length_differences [simp]: "length (differences clk ts) = length ts"
  by (induction ts arbitrary: clk) simp_all


lemma sum_loop_eq:
  "sum_loop s clk ts =
     (if ts = [] then s else int64_wrap (s + sum_list (elapsed_from clk ts)),
      \<lambda>n. clk (length ts + n))"
proof (induction ts arbitrary: s clk)
  case Nil
  show ?case by simp
next
  case (Cons t ts)
  have "int64_wrap (int64_wrap (s + d) + r) = int64_wrap (s + (d + r))" for d r
    by (simp add: int64_wrap_add_left add.assoc)
  then show ?case
    by (simp add: Cons.IH time_Now_def elapsed_def [symmetric] int64_add_def Let_def)
qed

lemma sumTimeEntriesDuration_eq:
  "sumTimeEntriesDuration clk ts =
     (int64_wrap (sum_list (elapsed_from clk ts)), \<lambda>n. clk (length ts + n))"
  by (simp add: sumTimeEntriesDuration_def sum_loop_eq int64_wrap_def)


lemmas duration_text_simps =
  durationToString_exact Hour_def Minute_def Second_def Sprintf_d_def Sprintf_02d_def
  signed_divide_int_def signed_modulo_int_def decimal.simps zero_pad_def digit_char_def

lemma Write_unlimited: "room w = None \<Longrightarrow> Write w s = (None, w\<lparr>written := written w @ s\<rparr>)"
  by (simp add: Write_def)





section \<open>Write errors\<close>

lemma quiet_returns_nil: "fst (TimeEntriesPrintQuietly timeEntries w) = None"
  by (simp add: TimeEntriesPrintQuietly_def)

lemma table_never_returns_error:
  "TimeEntriesPrint wd [] mem clk timeEntries w \<noteq> Returns (Some err, w')"
  by (simp add: TimeEntriesPrint_def split: outcome.splits)

text \<open>
  C2. With a sink that rejects every write, the quiet renderer and the table renderer
  still return nil: the first drops the result of \<open>Fprintln\<close>, the second prints through
  \<open>Render\<close>, which has no result. The write of the same text through \<open>Fprintln\<close>, as the
  duration-only renderers do it, returns the error.
\<close>

theorem write_error_not_returned:
  "fst (Write broken (''a'' @ newline)) = Some WriteError \<and>
   TimeEntriesPrintQuietly [entry ''a'' 0 None] broken = (None, broken) \<and>
   TimeEntriesPrint world0 [] memory0 clock_zero [entry ''a'' 0 None] broken
     = Returns (None, broken) \<and>
   fst (TimeEntriesTotalDurationOnlyFormatted clock_zero [entry ''a'' 0 None] broken)
     = Some WriteError \<and>
   fst (TimeEntriesPrintQuietly timeEntries w) = None \<and>
   TimeEntriesPrint wd [] mem clk timeEntries w \<noteq> Returns (Some err, w')"
proof -
  have 1: "fst (Write broken (s @ newline)) = Some WriteError"
    and 2: "snd (Write broken (s @ newline)) = broken" for s
    by (simp_all add: Write_def broken_def newline_def)
  have 3: "TimeEntriesPrintQuietly [entry ''a'' 0 None] broken = (None, broken)"
    by (simp add: TimeEntriesPrintQuietly_def Fprintln_def 2)
  have "table_of world0 \<lparr>ShowTasks = False, ShowTotalDuration = False, TimeFormat = TIME_FORMAT_SIMPLE\<rparr>
          memory0 clock_zero [entry ''a'' 0 None] = Returns tw \<Longrightarrow>
        snd (Write broken (tw_render world0 tw)) = broken" for tw
    by (simp add: world0_def 2)
  then have 4: "TimeEntriesPrint world0 [] memory0 clock_zero [entry ''a'' 0 None] broken
     = Returns (None, broken)"
    by (simp add: TimeEntriesPrint_def table_of_def entry_def time_Now_def clock_zero_def
        table_total_def world0_def 2 split: outcome.splits)
  have 5: "fst (TimeEntriesTotalDurationOnlyFormatted clock_zero [entry ''a'' 0 None] broken)
     = Some WriteError"
    by (simp add: TimeEntriesTotalDurationOnlyFormatted_def timeEntriesTotalDurationOnly_def
        Fprintln_def 1)
  show ?thesis
    using 1 [of "''a''"] 3 4 5 quiet_returns_nil table_never_returns_error by simp
qed

section \<open>The CSV writer\<close>

lemma bufio_drain_unlimited:
  "room w = None \<Longrightarrow>
     \<exists>p' w'. bufio_drain p w = (None, p', w') \<and> room w' = None \<and>
       written w' @ p' = written w @ p"
proof (induction p w rule: bufio_drain.induct)
  case (1 p w)
  show ?case
  proof (cases "length p \<le> 4096")
    case True
    with "1.prems" show ?thesis by (simp add: bufio_drain.simps [of p w])
  next
    case False
    let ?w' = "w\<lparr>written := written w @ take 4096 p\<rparr>"
    have W: "Write w (take 4096 p) = (None, ?w')" using "1.prems" by (simp add: Write_unlimited)
    have "room ?w' = None" using "1.prems" by simp
    from "1.IH" [OF False W [symmetric] refl this]
    obtain p' w'' where "bufio_drain (drop 4096 p) ?w' = (None, p', w'')" "room w'' = None"
      "written w'' @ p' = written ?w' @ drop 4096 p" by blast
    then show ?thesis using False W by (simp add: bufio_drain.simps [of p w])
  qed
qed

text \<open>What has been handed to a writer so far: the bytes in the sink and those pending.\<close>

lemma csv_Write_unlimited:
  assumes "room (under cw) = None" "werr cw = None"
  shows "\<exists>cw'. csv_Write cw r = (None, cw') \<and> room (under cw') = None \<and> werr cw' = None \<and>
           written (under cw') @ pending cw' = written (under cw) @ pending cw @ csv_line r"
proof -
  from bufio_drain_unlimited [OF assms(1), of "pending cw @ csv_line r"]
  obtain p' w' where "bufio_drain (pending cw @ csv_line r) (under cw) = (None, p', w')"
    "room w' = None" "written w' @ p' = written (under cw) @ pending cw @ csv_line r" by blast
  then show ?thesis using assms(2) by (simp add: csv_Write_def)
qed

lemma csv_loop_unlimited:
  assumes "room (under cw) = None" "werr cw = None"
  shows "\<exists>cw'. csv_loop wd clk mem cw es = (None, cw', csv_memory wd clk mem es) \<and>
           room (under cw') = None \<and> werr cw' = None \<and>
           written (under cw') @ pending cw'
             = written (under cw) @ pending cw @ concat (map csv_line (csv_records wd clk mem es))"
  using assms
proof (induction es arbitrary: clk mem cw)
  case Nil
  then show ?case by simp
next
  case (Cons te es)
  obtain te' mem' r where st: "csv_step wd (clk 0) mem te = (te', mem', r)"
    by (cases "csv_step wd (clk 0) mem te") auto
  from csv_Write_unlimited [OF Cons.prems, of r]
  obtain cw1 where w1: "csv_Write cw r = (None, cw1)" "room (under cw1) = None" "werr cw1 = None"
    "written (under cw1) @ pending cw1 = written (under cw) @ pending cw @ csv_line r" by blast
  from Cons.IH [OF w1(2,3), of "\<lambda>n. clk (Suc n)" mem']
  obtain cw' where
    "csv_loop wd (\<lambda>n. clk (Suc n)) mem' cw1 es = (None, cw', csv_memory wd (\<lambda>n. clk (Suc n)) mem' es)"
    "room (under cw') = None" "werr cw' = None"
    "written (under cw') @ pending cw'
       = written (under cw1) @ pending cw1
           @ concat (map csv_line (csv_records wd (\<lambda>n. clk (Suc n)) mem' es))" by blast
  then show ?case using st w1 by (simp add: time_Now_def)
qed

lemma csv_Flush_unlimited:
  assumes "room (under cw) = None" "werr cw = None"
  shows "werr (csv_Flush cw) = None \<and>
         under (csv_Flush cw) = (under cw)\<lparr>written := written (under cw) @ pending cw\<rparr>"
  using assms by (simp add: csv_Flush_def Write_unlimited)

lemma TimeEntriesCSVPrint_unlimited:
  assumes "room w = None"
  shows "TimeEntriesCSVPrint wd clk mem es w =
           (None,
            w\<lparr>written := written w @ csv_line csv_header
                 @ concat (map csv_line (csv_records wd clk mem es))\<rparr>,
            csv_memory wd clk mem es, es)"
proof -
  have n: "room (under (csv_NewWriter w)) = None" "werr (csv_NewWriter w) = None"
    using assms by (simp_all add: csv_NewWriter_def)
  from csv_Write_unlimited [OF n, of csv_header]
  obtain cw1 where w1: "csv_Write (csv_NewWriter w) csv_header = (None, cw1)"
    "room (under cw1) = None" "werr cw1 = None"
    "written (under cw1) @ pending cw1 = written w @ csv_line csv_header"
    by (auto simp: csv_NewWriter_def)
  from csv_loop_unlimited [OF w1(2,3), of wd clk mem es]
  obtain cw2 where w2: "csv_loop wd clk mem cw1 es = (None, cw2, csv_memory wd clk mem es)"
    "room (under cw2) = None" "werr cw2 = None"
    "written (under cw2) @ pending cw2
       = written (under cw1) @ pending cw1 @ concat (map csv_line (csv_records wd clk mem es))"
    by blast
  let ?total = "written w @ csv_line csv_header
                  @ concat (map csv_line (csv_records wd clk mem es))"
  have f: "werr (csv_Flush cw2) = None"
    "under (csv_Flush cw2) = (under cw2)\<lparr>written := written (under cw2) @ pending cw2\<rparr>"
    using csv_Flush_unlimited [OF w2(2,3)] by simp_all
  have "written (under (csv_Flush cw2)) = ?total" "room (under (csv_Flush cw2)) = None"
    using f(2) w2(2,4) w1(4) by simp_all
  then have "under (csv_Flush cw2) = w\<lparr>written := ?total\<rparr>"
    using assms by (intro sink.equality) simp_all
  then show ?thesis
    using w1(1) w2(1) f(1) by (simp add: TimeEntriesCSVPrint_def Let_def)
qed

section \<open>Empty collections\<close>

lemma csv_header_line:
  "csv_line csv_header =
     ''id,description,project.id,project.name,task.id,task.name,start,end,duration,user.id,user.email,user.name,tags...''
       @ newline"
  by code_simp

lemma CSV_empty:
  "TimeEntriesCSVPrint wd clk mem [] w
     = (fst (Write w (csv_line csv_header)), snd (Write w (csv_line csv_header)), mem, [])"
proof -
  have l: "length (csv_line csv_header) \<le> 4096" "csv_line csv_header \<noteq> ''''"
    by (simp_all add: csv_header_line newline_def)
  show ?thesis
    using l
    by (cases "Write w (csv_line csv_header)")
      (auto simp: TimeEntriesCSVPrint_def csv_Write_def csv_NewWriter_def
        bufio_drain.simps [of "csv_line csv_header" w] csv_Flush_def Let_def
        split: option.splits)
qed

lemma zero_duration_text: "durationToString 0 = ''0:00:00''"
  by (simp add: duration_text_simps)

lemma zero_hours_text: "Sprintf_f (Duration_Hours 0) = ''0.000000''"
  by code_simp

text \<open>
  C5 (as amended). For an empty collection: the JSON renderer writes an empty array
  when the slice is empty but not nil, and \<open>null\<close> when it is nil; the CSV renderer
  writes the header row and nothing else; the quiet renderer writes nothing; the
  duration-only renderers write a total of zero, \<open>0:00:00\<close> and \<open>0.000000\<close>. The table
  gets its header and no line but the total, when that is asked for; the template
  renderer writes nothing when the template parses.
\<close>

theorem empty_collection:
  "TimeEntriesJSONPrint enc mem (Some []) w = Write w (''[]'' @ newline) \<and>
   TimeEntriesJSONPrint enc mem None w = Write w (''null'' @ newline) \<and>
   TimeEntriesCSVPrint wd clk mem [] w
     = (fst (Write w (csv_line csv_header)), snd (Write w (csv_line csv_header)), mem, []) \<and>
   csv_line csv_header =
     ''id,description,project.id,project.name,task.id,task.name,start,end,duration,user.id,user.email,user.name,tags...''
       @ newline \<and>
   TimeEntriesPrintQuietly [] w = (None, w) \<and>
   TimeEntriesTotalDurationOnlyFormatted clk [] w = Write w (''0:00:00'' @ newline) \<and>
   TimeEntriesTotalDurationOnlyAsFloat clk [] w = Write w (''0.000000'' @ newline) \<and>
   table_of wd options mem clk [] =
     Returns \<lparr>header = table_header options, rowLine = True,
              colWidth = (case term_width wd of None \<Rightarrow> None | Some width \<Rightarrow> Some (width sdiv 3)),
              lines = table_total options clk []\<rparr> \<and>
   TimeEntriesPrintWithTemplate parse exec format mem [] w
     = (case parse format of Inl e \<Rightarrow> (Some e, w) | Inr t \<Rightarrow> (None, w))"
proof -
  have "sumTimeEntriesDuration clk [] = (0, clk)" by (simp add: sumTimeEntriesDuration_def)
  then have "TimeEntriesTotalDurationOnlyFormatted clk [] w = Write w (''0:00:00'' @ newline)"
    "TimeEntriesTotalDurationOnlyAsFloat clk [] w = Write w (''0.000000'' @ newline)"
    by (simp_all add: TimeEntriesTotalDurationOnlyFormatted_def
        TimeEntriesTotalDurationOnlyAsFloat_def timeEntriesTotalDurationOnly_def Fprintln_def
        zero_duration_text zero_hours_text)
  moreover have "TimeEntriesJSONPrint enc mem (Some []) w = Write w (''[]'' @ newline)"
    "TimeEntriesJSONPrint enc mem None w = Write w (''null'' @ newline)"
    by (simp_all add: TimeEntriesJSONPrint_def json_Marshal_def)
  moreover have "TimeEntriesPrintWithTemplate parse exec format mem [] w
     = (case parse format of Inl e \<Rightarrow> (Some e, w) | Inr t \<Rightarrow> (None, w))"
    by (simp add: TimeEntriesPrintWithTemplate_def split: sum.splits)
  ultimately show ?thesis
    by (simp add: CSV_empty csv_header_line TimeEntriesPrintQuietly_def table_of_def)
qed

text \<open>The claim as stated fails for the nil slice: the JSON renderer writes \<open>null\<close>.\<close>

theorem empty_collection_counterexample:
  "TimeEntriesJSONPrint enc0 memory0 None sink0
     = (None, \<lparr>written = ''null'' @ newline, room = None\<rparr>) \<and>
   ''null'' @ newline \<noteq> ''[]'' @ newline"
  by (simp add: TimeEntriesJSONPrint_def json_Marshal_def Write_def sink0_def)

section \<open>The columns of a CSV record\<close>

lemma deref_alloc_new: "alloc h v = (a, h') \<Longrightarrow> deref h' a = v"
  by (auto simp: alloc_def deref_def)

lemma csv_step_record:
  assumes "csv_step wd now mem te = (te', mem', r)"
  shows "length r = 12 + length (Tags te)"
    and "drop 12 r = map (\<lambda>t. Tag.Name t @ '' ('' @ Tag.ID t @ '')'') (Tags te)"
    and "r ! 0 = TimeEntry.ID te" and "r ! 1 = Description te"
    and "TimeEntry.Project te = None \<Longrightarrow> r ! 2 = '''' \<and> r ! 3 = ''''"
    and "Task te = None \<Longrightarrow> r ! 4 = '''' \<and> r ! 5 = ''''"
    and "User te = None \<Longrightarrow> r ! 9 = '''' \<and> r ! 10 = '''' \<and> r ! 11 = ''''"
    and "r ! 8 = durationToString (elapsed now te)"
  using assms
  by (auto simp: csv_step_def Let_def tagsToStringSlice_def Sprintf_s_paren_def alloc_def deref_def
      zero_Project_def zero_Task_def zero_User_def elapsed_def
      split: option.splits prod.splits)

lemma length_csv_records [simp]: "length (csv_records wd clk mem es) = length es"
  by (induction es arbitrary: clk mem) (auto split: prod.splits)

lemma csv_records_nth:
  "i < length es \<Longrightarrow>
     \<exists>m te' m'. csv_step wd (clk i) m (es ! i) = (te', m', csv_records wd clk mem es ! i)"
proof (induction es arbitrary: clk mem i)
  case Nil
  then show ?case by simp
next
  case (Cons te es)
  obtain te' mem' r where st: "csv_step wd (clk 0) mem te = (te', mem', r)"
    by (cases "csv_step wd (clk 0) mem te") auto
  show ?case
  proof (cases i)
    case 0
    with st show ?thesis by auto
  next
    case (Suc j)
    with Cons.prems have "j < length es" by simp
    from Cons.IH [OF this, of "\<lambda>n. clk (Suc n)" mem'] show ?thesis
      using st Suc by simp
  qed
qed




section \<open>The caller's entries\<close>

lemma heap_extends_iff:
  "heap_extends h h' \<longleftrightarrow> fresh h \<le> fresh h' \<and> (\<forall>a < fresh h. deref h' a = deref h a)"
  by (auto simp: heap_extends_def list_all_iff)



lemma heap_extends_alloc: "alloc h v = (a, h') \<Longrightarrow> heap_extends h h'"
  by (auto simp: heap_extends_iff alloc_def deref_def)








section \<open>The template loop\<close>

lemma Execute_unlimited:
  "room w = None \<Longrightarrow>
     Execute exec t mem v w = (snd (exec t mem v), w\<lparr>written := written w @ fst (exec t mem v)\<rparr>)"
  by (simp add: Execute_def Write_unlimited split: prod.splits)

lemma concat_map_upt_Suc:
  "concat (map f [0..<Suc n]) = f 0 @ concat (map (\<lambda>j. f (Suc j)) [0..<n])"
proof -
  have "[0..<Suc n] = 0 # map Suc [0..<n]" by (simp add: upt_conv_Cons map_Suc_upt del: upt_Suc)
  then show ?thesis by (simp add: comp_def del: upt_Suc)
qed

text \<open>The view of the j-th entry of the rest of the collection, the loop being at index \<open>i\<close>.\<close>

lemma template_loop_ok:
  assumes "room w = None"
    and "\<forall>j < length rest.
           snd (exec t mem \<lparr>TimeEntry = rest ! j, First = (i + int j = 0),
                            Last = (i + int j = len - 1)\<rparr>) = None"
  shows "template_loop exec t mem len i rest w =
           (None,
            w\<lparr>written := written w @
                 concat (map (\<lambda>j. fst (exec t mem \<lparr>TimeEntry = rest ! j, First = (i + int j = 0),
                                                   Last = (i + int j = len - 1)\<rparr>) @ newline)
                           [0..<length rest])\<rparr>)"
  using assms
proof (induction rest arbitrary: i w)
  case Nil
  then show ?case by simp
next
  case (Cons te rest)
  let ?v = "\<lparr>TimeEntry = te, First = (i = 0), Last = (i = len - 1)\<rparr>"
  let ?w1 = "w\<lparr>written := written w @ fst (exec t mem ?v) @ newline\<rparr>"
  from Cons.prems(2) have ok: "snd (exec t mem ?v) = None" by fastforce
  have r1: "room ?w1 = None" using Cons.prems(1) by simp
  have rest: "\<forall>j < length rest.
           snd (exec t mem \<lparr>TimeEntry = rest ! j, First = (i + 1 + int j = 0),
                            Last = (i + 1 + int j = len - 1)\<rparr>) = None"
  proof (intro allI impI)
    fix j assume "j < length rest"
    then have "Suc j < length (te # rest)" by simp
    from Cons.prems(2) [rule_format, OF this] show
      "snd (exec t mem \<lparr>TimeEntry = rest ! j, First = (i + 1 + int j = 0),
                            Last = (i + 1 + int j = len - 1)\<rparr>) = None"
      by (simp add: add.assoc add.commute [of 1])
  qed
  have step: "template_loop exec t mem len i (te # rest) w
               = template_loop exec t mem len (i + 1) rest ?w1"
    using Cons.prems(1) ok
    by (simp add: Execute_unlimited Fprintln_def Write_unlimited)
  show ?case
    unfolding step Cons.IH [OF r1 rest]
    by (simp add: concat_map_upt_Suc add.assoc add.commute [of 1] del: upt_Suc)
qed

lemma template_loop_fail:
  assumes "room w = None" and "k < length rest"
    and "\<forall>j < k.
           snd (exec t mem \<lparr>TimeEntry = rest ! j, First = (i + int j = 0),
                            Last = (i + int j = len - 1)\<rparr>) = None"
    and "snd (exec t mem \<lparr>TimeEntry = rest ! k, First = (i + int k = 0),
                            Last = (i + int k = len - 1)\<rparr>) = Some err"
  shows "template_loop exec t mem len i rest w =
           (Some err,
            w\<lparr>written := written w @
                 concat (map (\<lambda>j. fst (exec t mem \<lparr>TimeEntry = rest ! j, First = (i + int j = 0),
                                                   Last = (i + int j = len - 1)\<rparr>) @ newline)
                           [0..<k])
                 @ fst (exec t mem \<lparr>TimeEntry = rest ! k, First = (i + int k = 0),
                                       Last = (i + int k = len - 1)\<rparr>)\<rparr>)"
  using assms
proof (induction rest arbitrary: i w k)
  case Nil
  then show ?case by simp
next
  case (Cons te rest)
  let ?v = "\<lparr>TimeEntry = te, First = (i = 0), Last = (i = len - 1)\<rparr>"
  show ?case
  proof (cases k)
    case 0
    with Cons.prems show ?thesis by (simp add: Execute_unlimited)
  next
    case (Suc k')
    let ?w1 = "w\<lparr>written := written w @ fst (exec t mem ?v) @ newline\<rparr>"
    from Cons.prems(3) Suc have ok: "snd (exec t mem ?v) = None" by fastforce
    have r1: "room ?w1 = None" using Cons.prems(1) by simp
    have k': "k' < length rest" using Cons.prems(2) Suc by simp
    have before: "\<forall>j < k'.
           snd (exec t mem \<lparr>TimeEntry = rest ! j, First = (i + 1 + int j = 0),
                            Last = (i + 1 + int j = len - 1)\<rparr>) = None"
    proof (intro allI impI)
      fix j assume "j < k'"
      then have "Suc j < k" using Suc by simp
      from Cons.prems(3) [rule_format, OF this] show
        "snd (exec t mem \<lparr>TimeEntry = rest ! j, First = (i + 1 + int j = 0),
                            Last = (i + 1 + int j = len - 1)\<rparr>) = None"
        by (simp add: add.assoc add.commute [of 1])
    qed
    have fails: "snd (exec t mem \<lparr>TimeEntry = rest ! k', First = (i + 1 + int k' = 0),
                            Last = (i + 1 + int k' = len - 1)\<rparr>) = Some err"
      using Cons.prems(4) Suc by (simp add: add.assoc add.commute [of 1])
    have step: "template_loop exec t mem len i (te # rest) w
                 = template_loop exec t mem len (i + 1) rest ?w1"
      using Cons.prems(1) ok
      by (simp add: Execute_unlimited Fprintln_def Write_unlimited)
    show ?thesis
      unfolding step Cons.IH [OF r1 k' before fails] Suc
      by (simp add: concat_map_upt_Suc add.assoc add.commute [of 1] del: upt_Suc)
  qed
qed

lemma Write_extends: "\<exists>s. written (snd (Write w x)) = written w @ s"
  by (simp add: Write_def split: option.splits)

lemma Execute_extends: "\<exists>s. written (snd (Execute exec t mem v w)) = written w @ s"
proof -
  obtain emitted e where x: "exec t mem v = (emitted, e)" by (cases "exec t mem v") auto
  obtain r1 w1 where y: "Write w emitted = (r1, w1)" by (cases "Write w emitted") auto
  from Write_extends [of w emitted] y have "\<exists>s. written w1 = written w @ s" by simp
  with x y show ?thesis by (cases r1) (simp_all add: Execute_def)
qed

lemma template_loop_extends:
  "\<exists>s. written (snd (template_loop exec t mem len i rest w)) = written w @ s"
proof (induction rest arbitrary: i w)
  case Nil
  then show ?case by simp
next
  case (Cons te rest)
  let ?v = "\<lparr>TimeEntry = te, First = (i = 0), Last = (i = len - 1)\<rparr>"
  obtain e w1 where x: "Execute exec t mem ?v w = (e, w1)"
    by (cases "Execute exec t mem ?v w") auto
  from Execute_extends [of exec t mem ?v w] x obtain s1 where s1: "written w1 = written w @ s1"
    by auto
  show ?case
  proof (cases e)
    case (Some err)
    with x s1 show ?thesis by simp
  next
    case None
    let ?w2 = "snd (Fprintln w1 '''')"
    from Write_extends [of w1 "'''' @ newline"] obtain s2 where s2: "written ?w2 = written w1 @ s2"
      by (auto simp: Fprintln_def)
    from Cons.IH [of "i + 1" ?w2] obtain s3 where
      "written (snd (template_loop exec t mem len (i + 1) rest ?w2)) = written ?w2 @ s3" by auto
    with None x s1 s2 show ?thesis by simp
  qed
qed

lemma view_at_loop:
  "\<lparr>TimeEntry = es ! j, First = (0 + int j = 0), Last = (0 + int j = int (length es) - 1)\<rparr>
     = view_at es j"
  by (simp add: view_at_def)

lemma template_loop_ok0:
  assumes "room w = None"
    and "\<forall>j < length es. snd (exec t mem (view_at es j)) = None"
  shows "template_loop exec t mem (int (length es)) 0 es w =
           (None,
            w\<lparr>written := written w
                  @ concat (map (\<lambda>j. fst (exec t mem (view_at es j)) @ newline) [0..<length es])\<rparr>)"
  by (rule template_loop_ok [of w es exec t mem 0 "int (length es)", unfolded view_at_loop,
        OF assms])

lemma template_loop_fail0:
  assumes "room w = None" and "k < length es"
    and "\<forall>j < k. snd (exec t mem (view_at es j)) = None"
    and "snd (exec t mem (view_at es k)) = Some err"
  shows "template_loop exec t mem (int (length es)) 0 es w =
           (Some err,
            w\<lparr>written := written w
                  @ concat (map (\<lambda>j. fst (exec t mem (view_at es j)) @ newline) [0..<k])
                  @ fst (exec t mem (view_at es k))\<rparr>)"
  by (rule template_loop_fail [of w k es exec t mem 0 "int (length es)" err, unfolded view_at_loop,
        OF assms])

section \<open>Template errors\<close>

text \<open>
  C7. When the template does not parse, the renderer returns the error and the sink is
  as it was. When it parses and evaluation fails first at the entry of index \<open>i\<close>, the
  renderer returns that error at once: with a sink that takes everything, the sink then
  holds the rows of the entries before \<open>i\<close>, each with its newline, and what the
  failing evaluation had emitted, and nothing of the entries after \<open>i\<close>. With any sink,
  what had been written before the call is still there after it.
\<close>

theorem template_errors:
  "(parse format = Inl err \<longrightarrow>
      TimeEntriesPrintWithTemplate parse exec format mem es w = (Some err, w)) \<and>
   (parse format = Inr t \<and> room w = None \<and> i < length es \<and>
    (\<forall>j < i. snd (exec t mem (view_at es j)) = None) \<and>
    snd (exec t mem (view_at es i)) = Some err \<longrightarrow>
      TimeEntriesPrintWithTemplate parse exec format mem es w =
        (Some err,
         w\<lparr>written := written w
               @ concat (map (\<lambda>j. fst (exec t mem (view_at es j)) @ newline) [0..<i])
               @ fst (exec t mem (view_at es i))\<rparr>)) \<and>
   (\<exists>s. written (snd (TimeEntriesPrintWithTemplate parse exec format mem es w)) = written w @ s)"
proof (intro conjI impI)
  assume "parse format = Inl err"
  then show "TimeEntriesPrintWithTemplate parse exec format mem es w = (Some err, w)"
    by (simp add: TimeEntriesPrintWithTemplate_def)
next
  assume a: "parse format = Inr t \<and> room w = None \<and> i < length es \<and>
    (\<forall>j < i. snd (exec t mem (view_at es j)) = None) \<and>
    snd (exec t mem (view_at es i)) = Some err"
  then have "template_loop exec t mem (int (length es)) 0 es w =
        (Some err,
         w\<lparr>written := written w
               @ concat (map (\<lambda>j. fst (exec t mem (view_at es j)) @ newline) [0..<i])
               @ fst (exec t mem (view_at es i))\<rparr>)"
    by (intro template_loop_fail0) simp_all
  with a show "TimeEntriesPrintWithTemplate parse exec format mem es w =
        (Some err,
         w\<lparr>written := written w
               @ concat (map (\<lambda>j. fst (exec t mem (view_at es j)) @ newline) [0..<i])
               @ fst (exec t mem (view_at es i))\<rparr>)"
    by (simp add: TimeEntriesPrintWithTemplate_def)
next
  show "\<exists>s. written (snd (TimeEntriesPrintWithTemplate parse exec format mem es w)) = written w @ s"
    using template_loop_extends [of exec _ mem "int (length es)" 0 es w]
    by (cases "parse format") (simp_all add: TimeEntriesPrintWithTemplate_def)
qed

theorem template_errors_witness:
  "TimeEntriesPrintWithTemplate parse0 exec0 ''{{'' memory0 three_entries sink0
     = (Some (TemplateSyntaxError ''unclosed action''), sink0) \<and>
   TimeEntriesPrintWithTemplate parse0 exec0 ''x'' memory0 failing_entries sink0
     = (Some (TemplateEvalError ''bad''), \<lparr>written = ''aF'' @ newline @ ''<'', room = None\<rparr>)"
proof -
  have p1: "parse0 ''{{'' = Inl (TemplateSyntaxError ''unclosed action'')"
    and p2: "parse0 ''x'' = Inr ''x''"
    by (simp_all add: parse0_def)
  have v0: "exec0 ''x'' memory0 (view_at failing_entries 0) = (''aF'', None)"
    and v1: "exec0 ''x'' memory0 (view_at failing_entries 1)
               = (''<'', Some (TemplateEvalError ''bad''))"
    by (simp_all add: exec0_def view_at_def failing_entries_def entry_def)
  have length_failing: "length failing_entries = 3" by (simp add: failing_entries_def)
  have h: "parse0 ''x'' = Inr ''x'' \<and> room sink0 = None \<and> 1 < length failing_entries \<and>
    (\<forall>j < 1. snd (exec0 ''x'' memory0 (view_at failing_entries j)) = None) \<and>
    snd (exec0 ''x'' memory0 (view_at failing_entries 1)) = Some (TemplateEvalError ''bad'')"
    using v0 v1 by (simp add: p2 sink0_def length_failing)
  from template_errors [of parse0 "''{{''" "TemplateSyntaxError ''unclosed action''" exec0 memory0
      three_entries sink0] p1
  have a: "TimeEntriesPrintWithTemplate parse0 exec0 ''{{'' memory0 three_entries sink0
     = (Some (TemplateSyntaxError ''unclosed action''), sink0)" by blast
  from template_errors [of parse0 "''x''" "TemplateEvalError ''bad''" exec0 memory0
      failing_entries sink0 "''x''" 1] h
  have "TimeEntriesPrintWithTemplate parse0 exec0 ''x'' memory0 failing_entries sink0 =
        (Some (TemplateEvalError ''bad''),
         sink0\<lparr>written := written sink0
               @ concat (map (\<lambda>j. fst (exec0 ''x'' memory0 (view_at failing_entries j)) @ newline) [0..<1])
               @ fst (exec0 ''x'' memory0 (view_at failing_entries 1))\<rparr>)" by blast
  then have b: "TimeEntriesPrintWithTemplate parse0 exec0 ''x'' memory0 failing_entries sink0
     = (Some (TemplateEvalError ''bad''), \<lparr>written = ''aF'' @ newline @ ''<'', room = None\<rparr>)"
    using v0 v1 by (simp add: sink0_def)
  from a b show ?thesis by simp
qed

section \<open>First and Last\<close>

text \<open>
  C8. When the template parses and no evaluation fails, the renderer evaluates it once
  per entry, in order, on the view of that entry, and writes what each evaluation emits
  followed by a newline (the sink taking everything). In the view of the entry at index
  \<open>j\<close>, \<open>First\<close> is true exactly when \<open>j\<close> is 0 and \<open>Last\<close> exactly when \<open>j\<close> is the
  last index: both for the entry of a one-element collection, and only index 0 and
  only index 2, respectively, in a collection of three.
\<close>

theorem template_first_last:
  assumes "parse format = Inr t" and "room w = None"
    and "\<forall>j < length es. snd (exec t mem (view_at es j)) = None"
  shows "TimeEntriesPrintWithTemplate parse exec format mem es w =
           (None,
            w\<lparr>written := written w
                  @ concat (map (\<lambda>j. fst (exec t mem (view_at es j)) @ newline) [0..<length es])\<rparr>) \<and>
         (\<forall>j < length es.
            TimeEntry (view_at es j) = es ! j \<and>
            (First (view_at es j) \<longleftrightarrow> j = 0) \<and>
            (Last (view_at es j) \<longleftrightarrow> j = length es - 1)) \<and>
         (length es = 1 \<longrightarrow> First (view_at es 0) \<and> Last (view_at es 0)) \<and>
         (length es = 3 \<longrightarrow>
            map (\<lambda>j. (First (view_at es j), Last (view_at es j))) [0, 1, 2]
              = [(True, False), (False, False), (False, True)])"
proof -
  have "template_loop exec t mem (int (length es)) 0 es w =
           (None,
            w\<lparr>written := written w
                  @ concat (map (\<lambda>j. fst (exec t mem (view_at es j)) @ newline) [0..<length es])\<rparr>)"
    using assms(2,3) by (rule template_loop_ok0)
  moreover have "\<forall>j < length es.
            TimeEntry (view_at es j) = es ! j \<and>
            (First (view_at es j) \<longleftrightarrow> j = 0) \<and>
            (Last (view_at es j) \<longleftrightarrow> j = length es - 1)"
    by (auto simp: view_at_def)
  ultimately show ?thesis
    using assms(1) by (simp add: TimeEntriesPrintWithTemplate_def view_at_def)
qed

theorem template_first_last_witness:
  "TimeEntriesPrintWithTemplate parse0 exec0 ''x'' memory0 three_entries sink0
     = (None, \<lparr>written = ''aF'' @ newline @ ''b'' @ newline @ ''cL'' @ newline, room = None\<rparr>) \<and>
   TimeEntriesPrintWithTemplate parse0 exec0 ''x'' memory0 [entry ''a'' 0 None] sink0
     = (None, \<lparr>written = ''aFL'' @ newline, room = None\<rparr>)"
proof -
  have p: "parse0 ''x'' = Inr ''x''" by (simp add: parse0_def)
  have r: "room sink0 = None" by (simp add: sink0_def)
  have v: "exec0 ''x'' memory0 (view_at three_entries 0) = (''aF'', None)"
    "exec0 ''x'' memory0 (view_at three_entries 1) = (''b'', None)"
    "exec0 ''x'' memory0 (view_at three_entries 2) = (''cL'', None)"
    "exec0 ''x'' memory0 (view_at [entry ''a'' 0 None] 0) = (''aFL'', None)"
    by (simp_all add: exec0_def view_at_def three_entries_def entry_def)
  have u3: "[0..<3] = [0, 1, 2]" by (simp add: upt_rec)
  have l: "length three_entries = 3" by (simp add: three_entries_def)
  have ok3: "\<forall>j < length three_entries. snd (exec0 ''x'' memory0 (view_at three_entries j)) = None"
    using v by (simp add: l less_Suc_eq numeral_3_eq_3 numeral_2_eq_2)
  have ok1: "\<forall>j < length [entry ''a'' 0 None].
               snd (exec0 ''x'' memory0 (view_at [entry ''a'' 0 None] j)) = None"
    by (simp add: exec0_def view_at_def entry_def)
  from template_first_last [of parse0 "''x''" "''x''" sink0 three_entries exec0 memory0,
      OF p r ok3]
  have a: "TimeEntriesPrintWithTemplate parse0 exec0 ''x'' memory0 three_entries sink0
     = (None, \<lparr>written = ''aF'' @ newline @ ''b'' @ newline @ ''cL'' @ newline, room = None\<rparr>)"
    using v by (simp add: l u3 sink0_def numeral_2_eq_2)
  from template_first_last [of parse0 "''x''" "''x''" sink0 "[entry ''a'' 0 None]" exec0 memory0,
      OF p r ok1]
  have b: "TimeEntriesPrintWithTemplate parse0 exec0 ''x'' memory0 [entry ''a'' 0 None] sink0
     = (None, \<lparr>written = ''aFL'' @ newline, room = None\<rparr>)"
    using v by (simp add: sink0_def)
  from a b show ?thesis by simp
qed

section \<open>The rows of the table\<close>

lemma table_rows_durations:
  "table_rows wd options mem clk colors es = Returns (ls, clk') \<Longrightarrow>
     map dur_column ls = map durationToString (elapsed_from clk es) \<and>
     clk' = (\<lambda>n. clk (length es + n))"
proof (induction es arbitrary: clk colors ls clk')
  case Nil
  then show ?case by simp
next
  case (Cons t ts)
  let ?end = "case End (TimeInterval t) of None \<Rightarrow> clk 0 | Some e \<Rightarrow> e"
  from Cons.prems obtain projectName colors' ls' where
    rest: "table_rows wd options mem (\<lambda>n. clk (Suc n)) colors' ts = Returns (ls', clk')"
    and ls: "\<exists>line. ls = Rich line colors' # ls' \<and>
               line ! 3 = durationToString (Time_Sub ?end (Start (TimeInterval t)))"
    by (auto simp: time_Now_def Let_def split: option.splits outcome.splits prod.splits if_splits)
  from Cons.IH [OF rest] ls show ?case
    by (auto simp: elapsed_def)
qed

lemma table_rows_no_project:
  "\<forall>t \<in> set es. TimeEntry.Project t = None \<Longrightarrow>
     \<exists>ls clk'. table_rows wd options mem clk colors es = Returns (ls, clk')"
proof (induction es arbitrary: clk colors)
  case Nil
  then show ?case by simp
next
  case (Cons t ts)
  then have "\<forall>t \<in> set ts. TimeEntry.Project t = None" by simp
  from Cons.IH [OF this, of "\<lambda>n. clk (Suc n)" "colors[4 := []]"]
  obtain ls clk' where
    "table_rows wd options mem (\<lambda>n. clk (Suc n)) (colors[4 := []]) ts = Returns (ls, clk')"
    by blast
  with Cons.prems show ?case by (simp add: time_Now_def Let_def)
qed

lemma table_of_durations:
  assumes "table_of wd options mem clk es = Returns tw"
  shows "map dur_column (lines tw) =
           map durationToString (elapsed_from clk es)
             @ (if ShowTotalDuration options
                then [durationToString
                        (int64_wrap (sum_list (elapsed_from (\<lambda>n. clk (length es + n)) es)))]
                else [])"
proof -
  from assms obtain ls clk' where
    rows: "table_rows wd options mem clk (replicate (length (table_header options)) []) es
             = Returns (ls, clk')"
    and tw: "lines tw = ls @ table_total options clk' es"
    by (auto simp: table_of_def split: outcome.splits)
  note r = table_rows_durations [OF rows]
  have "length (table_header options) = 7" by (simp add: table_header_def Let_def)
  then have "map dur_column (table_total options clk' es) =
          (if ShowTotalDuration options
           then [durationToString (fst (sumTimeEntriesDuration clk' es))] else [])"
    by (simp add: table_total_def numeral_eq_Suc)
  then show ?thesis
    using r by (simp add: tw sumTimeEntriesDuration_eq)
qed

lemma table_of_no_project:
  "\<forall>t \<in> set es. TimeEntry.Project t = None \<Longrightarrow> \<exists>tw. table_of wd options mem clk es = Returns tw"
  using table_rows_no_project [of es wd options mem clk "replicate (length (table_header options)) []"]
  by (auto simp: table_of_def)

lemma elapsed_from_constant:
  "(\<forall>n. clk n = now) \<Longrightarrow> elapsed_from clk es = map (elapsed now) es"
  by (induction es arbitrary: clk) simp_all

section \<open>The clock readings of one pass\<close>

lemma csv_records_duration:
  assumes "i < length es"
  shows "csv_records wd clk mem es ! i ! 8 = durationToString (elapsed (clk i) (es ! i))"
proof -
  from csv_records_nth [OF assms, of wd clk mem]
  obtain m te' m' where "csv_step wd (clk i) m (es ! i) = (te', m', csv_records wd clk mem es ! i)"
    by blast
  then show ?thesis by (rule csv_step_record(8))
qed

lemma elapsed_open:
  "End (TimeInterval t) = None \<Longrightarrow> minDuration \<le> now - Start (TimeInterval t) \<Longrightarrow>
     now - Start (TimeInterval t) \<le> maxDuration \<Longrightarrow>
     elapsed now t = now - Start (TimeInterval t)"
  by (simp add: elapsed_def Time_Sub_def)

text \<open>
  C1 (as amended). No instant is sampled once for a pass: every loop reads the clock anew
  at each entry. In the aggregation, in the rows of the table and in the CSV records,
  the duration of the i-th entry is measured against the i-th reading of the clock of
  that loop (for an open entry, that reading minus the start, when it fits a duration);
  the total line of the table is computed afterwards, against the readings that follow
  those of the rows. When the clock returns the same instant at every reading, every
  open entry is measured against that instant, and the total line is the sum of the
  durations of the rows.
\<close>

theorem clock_read_per_entry:
  "fst (sumTimeEntriesDuration clk es) = int64_wrap (sum_list (elapsed_from clk es)) \<and>
   length (elapsed_from clk es) = length es \<and>
   (\<forall>i < length es. elapsed_from clk es ! i = elapsed (clk i) (es ! i)) \<and>
   (End (TimeInterval t) = None \<and> minDuration \<le> now - Start (TimeInterval t) \<and>
    now - Start (TimeInterval t) \<le> maxDuration \<longrightarrow>
      elapsed now t = now - Start (TimeInterval t)) \<and>
   (table_of wd options mem clk es = Returns tw \<longrightarrow>
      map dur_column (lines tw) =
        map durationToString (elapsed_from clk es)
          @ (if ShowTotalDuration options
             then [durationToString
                     (int64_wrap (sum_list (elapsed_from (\<lambda>n. clk (length es + n)) es)))]
             else [])) \<and>
   (\<forall>i < length es.
      csv_records wd clk mem es ! i ! 8 = durationToString (elapsed (clk i) (es ! i))) \<and>
   (room w = None \<longrightarrow>
      fst (snd (TimeEntriesCSVPrint wd clk mem es w)) =
        w\<lparr>written := written w @ csv_line csv_header
              @ concat (map csv_line (csv_records wd clk mem es))\<rparr>) \<and>
   ((\<forall>n. clk n = now) \<longrightarrow>
      elapsed_from clk es = map (elapsed now) es \<and>
      elapsed_from (\<lambda>n. clk (length es + n)) es = map (elapsed now) es)"
  by (simp add: sumTimeEntriesDuration_eq nth_elapsed_from elapsed_open table_of_durations
      csv_records_duration TimeEntriesCSVPrint_unlimited elapsed_from_constant)

lemma scenario_texts:
  "durationToString (1800 * Second) = ''0:30:00''"
  "durationToString (900 * Second) = ''0:15:00''"
  "durationToString (2700 * Second) = ''0:45:00''"
  by (simp_all add: duration_text_simps)

theorem clock_read_per_entry_witness:
  "dur_cells (table_of world0 options_total memory0 clock_1115 scenario)
     = [''0:30:00'', ''0:15:00'', ''0:45:00'']"
proof -
  have "\<forall>t \<in> set scenario. TimeEntry.Project t = None" by (simp add: scenario_def entry_def)
  from table_of_no_project [OF this] obtain tw where
    tw: "table_of world0 options_total memory0 clock_1115 scenario = Returns tw" by blast
  have c: "\<forall>n. clock_1115 n = 40500 * Second" by (simp add: clock_1115_def)
  have e: "map (elapsed (40500 * Second)) scenario = [1800 * Second, 900 * Second]"
    by (simp add: scenario_def entry_def elapsed_def Time_Sub_def minDuration_def maxDuration_def
        Second_def)
  have s: "int64_wrap (1800 * Second + 900 * Second) = 2700 * Second"
    by (simp add: int64_wrap_def Second_def)
  note t = clock_read_per_entry [of clock_1115 scenario _ "40500 * Second" world0 options_total
      memory0 tw]
  from t tw have "map dur_column (lines tw) =
        map durationToString (elapsed_from clock_1115 scenario)
          @ (if ShowTotalDuration options_total
             then [durationToString
                     (int64_wrap (sum_list (elapsed_from (\<lambda>n. clock_1115 (length scenario + n)) scenario)))]
             else [])" by blast
  moreover from t c have "elapsed_from clock_1115 scenario = map (elapsed (40500 * Second)) scenario"
    "elapsed_from (\<lambda>n. clock_1115 (length scenario + n)) scenario
       = map (elapsed (40500 * Second)) scenario" by blast+
  ultimately have "map dur_column (lines tw) = [''0:30:00'', ''0:15:00'', ''0:45:00'']"
    using scenario_texts s by (simp add: e options_total_def)
  with tw show ?thesis by (simp add: dur_cells_def)
qed

lemma tick_texts:
  "durationToString 0 = ''0:00:00''"
  "durationToString Second = ''0:00:01''"
  "durationToString (5 * Second) = ''0:00:05''"
  by (simp_all add: duration_text_simps)

text \<open>
  The claim as stated fails when the clock advances between readings. With a clock that
  gains a second per reading, two open entries with the same start are shown as running
  for \<open>0:00:00\<close> and \<open>0:00:01\<close> in the same table, and the total line, computed from
  the third and fourth readings, says \<open>0:00:05\<close>.
\<close>

theorem clock_read_per_entry_counterexample:
  "End (TimeInterval (two_open ! 0)) = None \<and> End (TimeInterval (two_open ! 1)) = None \<and>
   Start (TimeInterval (two_open ! 0)) = Start (TimeInterval (two_open ! 1)) \<and>
   dur_cells (table_of world0 options_total memory0 clock_tick two_open)
     = [''0:00:00'', ''0:00:01'', ''0:00:05''] \<and>
   fst (sumTimeEntriesDuration clock_tick two_open) = Second"
proof -
  have "\<forall>t \<in> set two_open. TimeEntry.Project t = None" by (simp add: two_open_def entry_def)
  from table_of_no_project [OF this] obtain tw where
    tw: "table_of world0 options_total memory0 clock_tick two_open = Returns tw" by blast
  have e1: "elapsed_from clock_tick two_open = [0, Second]"
    by (simp add: two_open_def entry_def elapsed_def Time_Sub_def minDuration_def maxDuration_def
        clock_tick_def Second_def)
  have e2: "elapsed_from (\<lambda>n. clock_tick (length two_open + n)) two_open = [2 * Second, 3 * Second]"
    by (simp add: two_open_def entry_def elapsed_def Time_Sub_def minDuration_def maxDuration_def
        clock_tick_def Second_def)
  have s: "int64_wrap (2 * Second + 3 * Second) = 5 * Second" "int64_wrap Second = Second"
    by (simp_all add: int64_wrap_def Second_def)
  have "map dur_column (lines tw) = [''0:00:00'', ''0:00:01'', ''0:00:05'']"
    using tick_texts s by (simp add: table_of_durations [OF tw] e1 e2 options_total_def)
  with tw have "dur_cells (table_of world0 options_total memory0 clock_tick two_open)
     = [''0:00:00'', ''0:00:01'', ''0:00:05'']" by (simp add: dur_cells_def)
  moreover have "fst (sumTimeEntriesDuration clock_tick two_open) = Second"
    using s by (simp add: sumTimeEntriesDuration_eq e1)
  ultimately show ?thesis by (simp add: two_open_def entry_def)
qed

section \<open>The check of the report flags\<close>

lemma conflict_message:
  "in_order [''can'' @ apostrophe @ ''t be used together'', ''billable'', ''not-billable'']
     (Error (ConflictingFlags ''billable'' ''not-billable''))"
  "contains (Error (ConflictingFlags ''billable'' ''not-billable'')) ''billable''"
  "contains (Error (ConflictingFlags ''billable'' ''not-billable'')) ''not-billable''"
  by (simp_all add: contains_def apostrophe_def starts_with_def)

text \<open>
  C3. \<open>Check\<close> fails when \<open>Billable\<close> and \<open>NotBillable\<close> are both set, with a
  message that names \<open>billable\<close> and \<open>not-billable\<close> and says that they can't be used
  together (it matches the pattern of the test); it fails when \<open>Client\<close> is set and
  \<open>Project\<close> is empty, and then, unless the first rule has already failed, with the
  message that flag 'client' can't be used without flag 'project'; it passes in every
  other case; and it leaves the flags as they were.
\<close>

theorem Check_rules:
  "(Billable rf \<and> NotBillable rf \<longrightarrow>
      fst (Check rf) = Some (ConflictingFlags ''billable'' ''not-billable'') \<and>
      contains (Error (ConflictingFlags ''billable'' ''not-billable'')) ''billable'' \<and>
      contains (Error (ConflictingFlags ''billable'' ''not-billable'')) ''not-billable'' \<and>
      in_order [''can'' @ apostrophe @ ''t be used together'', ''billable'', ''not-billable'']
        (Error (ConflictingFlags ''billable'' ''not-billable''))) \<and>
   (Client rf \<noteq> '''' \<and> ReportFlags.Project rf = '''' \<longrightarrow>
      fst (Check rf) \<noteq> None \<and>
      (\<not> (Billable rf \<and> NotBillable rf) \<longrightarrow>
         fst (Check rf) = Some (DependentFlagMissing ''client'' ''project'') \<and>
         Error (DependentFlagMissing ''client'' ''project'') =
           ''flag '' @ apostrophe @ ''client'' @ apostrophe @ '' can'' @ apostrophe
             @ ''t be used without flag '' @ apostrophe @ ''project'' @ apostrophe)) \<and>
   (\<not> (Billable rf \<and> NotBillable rf) \<and> \<not> (Client rf \<noteq> '''' \<and> ReportFlags.Project rf = '''') \<longrightarrow>
      fst (Check rf) = None) \<and>
   snd (Check rf) = rf"
  using conflict_message by (simp add: Check_def)

theorem Check_rules_witness:
  "fst (Check rf_both) = Some (ConflictingFlags ''billable'' ''not-billable'') \<and>
   fst (Check rf_client) = Some (DependentFlagMissing ''client'' ''project'') \<and>
   fst (Check rf_ok) = None \<and> snd (Check rf_ok) = rf_ok"
  using Check_rules [of rf_both] Check_rules [of rf_client] Check_rules [of rf_ok]
  by (simp add: rf_both_def rf_client_def rf_ok_def)

end
